theory Spec2Isabelle
  imports Complex_Main "HOL-Library.AList"
begin

section \<open>Python values used by bing\_search.py\<close>

text \<open>
  A Python \<open>str\<close> is a sequence of Unicode code points, so text is a list of code points
  (\<open>len\<close>, slicing and \<open>startswith\<close> count code points, as the lists do). \<open>lit\<close> writes an
  ASCII literal of the source. The library calls of the module (\<open>urllib.parse\<close>, \<open>base64\<close>,
  \<open>re\<close>, the \<open>%\<close> operator) are modelled as CPython 3.11 runs them.
\<close>

type_synonym pystr = "nat list"

definition lit :: "string \<Rightarrow> pystr" where
  "lit s = map of_char s"

text \<open>\<open>str(n)\<close> for an \<open>int\<close>: the decimal rendering.\<close>

fun digits :: "nat \<Rightarrow> pystr" where
  "digits n = (if n < 10 then [48 + n] else digits (n div 10) @ [48 + n mod 10])"

declare digits.simps [simp del]

definition str_int :: "int \<Rightarrow> pystr" where
  "str_int i = (if i < 0 then 45 # digits (nat (- i)) else digits (nat i))"

text \<open>\<open>sep.join(parts)\<close>.\<close>

fun join :: "pystr \<Rightarrow> pystr list \<Rightarrow> pystr" where
  "join sep [] = []"
| "join sep [x] = x"
| "join sep (x # y # ys) = x @ sep @ join sep (y # ys)"

text \<open>
  The values the module reads from and stores into \<open>params\<close>: \<open>None\<close>, an \<open>int\<close>, a \<open>str\<close>,
  or a \<open>dict\<close> from \<open>str\<close> to \<open>str\<close> (cookies, headers). A \<open>dict\<close> keeps insertion order:
  it is an association list, read with \<open>map_of\<close> and written with \<open>AList.update\<close> (an
  existing key keeps its place, a new key goes last).
\<close>

datatype pyval = PNone | PInt int | PStr pystr | PDict "(pystr \<times> pystr) list"

type_synonym params = "(pystr \<times> pyval) list"

definition dict_get :: "('k \<times> 'v) list \<Rightarrow> 'k \<Rightarrow> 'v \<Rightarrow> 'v" where
  "dict_get d k dflt = (case map_of d k of Some v \<Rightarrow> v | None \<Rightarrow> dflt)"

fun truthy :: "pyval \<Rightarrow> bool" where
  "truthy PNone = False"
| "truthy (PInt i) = (i \<noteq> 0)"
| "truthy (PStr s) = (s \<noteq> [])"
| "truthy (PDict d) = (d \<noteq> [])"

text \<open>
  Exceptions. \<open>FormatError\<close> stands for the \<open>TypeError\<close> or \<open>ValueError\<close> that the \<open>%\<close>
  operator raises on a bad conversion; \<open>LibraryError\<close> for whatever the HTML parser raises.
\<close>

datatype error = TypeError | ValueError | UnicodeEncodeError | FormatError | LibraryError

section \<open>EngineTraits and Logger\<close>

record EngineTraits =
  languages :: "(pystr \<times> pystr) list"
  regions :: "(pystr \<times> pystr) list"
  all_locale :: pystr

text \<open>
  \<open>self.regions.get(locale_str, default_region_code)\<close>: the key comes from \<open>params\<close>, so
  it is any value; a \<open>dict\<close> is unhashable and \<open>get\<close> raises \<open>TypeError\<close>, a key that is
  no \<open>str\<close> is not in the table.
\<close>

definition table_get :: "(pystr \<times> pystr) list \<Rightarrow> pyval \<Rightarrow> pystr \<Rightarrow> error + pystr" where
  "table_get tbl k dflt =
     (case k of
        PDict d \<Rightarrow> Inl TypeError
      | PStr s \<Rightarrow> Inr (dict_get tbl s dflt)
      | _ \<Rightarrow> Inr dflt)"

definition get_region :: "EngineTraits \<Rightarrow> pyval \<Rightarrow> pystr \<Rightarrow> error + pystr" where
  "get_region self locale_str default_region_code =
     table_get (regions self) locale_str default_region_code"

definition get_language :: "EngineTraits \<Rightarrow> pyval \<Rightarrow> pystr \<Rightarrow> error + pystr" where
  "get_language self locale_str default_language_code =
     table_get (languages self) locale_str default_language_code"

text \<open>
  \<open>Logger.warning\<close> and \<open>Logger.error\<close> run \<open>print(f"WARNING: {msg}" % args)\<close> with
  \<open>args = ()\<close> at every call of the module: the finished message goes through the \<open>%\<close>
  operator once more. With no arguments, \<open>%%\<close> becomes \<open>%\<close> and every other \<open>%\<close>
  raises (\<open>"50%" % ()\<close> is \<open>ValueError: incomplete format\<close>, \<open>"%20b" % ()\<close> is
  \<open>TypeError: not enough arguments for format string\<close>). The printed lines are the log.
\<close>

fun percent_noargs :: "pystr \<Rightarrow> error + pystr" where
  "percent_noargs [] = Inr []"
| "percent_noargs [c] = (if c = 37 then Inl FormatError else Inr [c])"
| "percent_noargs (c # d # ds) =
     (if c = 37 then
        (if d = 37 then map_sum id ((#) 37) (percent_noargs ds) else Inl FormatError)
      else map_sum id ((#) c) (percent_noargs (d # ds)))"

definition logger_print :: "pystr \<Rightarrow> pystr \<Rightarrow> pystr list \<Rightarrow> error + pystr list" where
  "logger_print level msg out =
     (case percent_noargs (level @ msg) of
        Inl e \<Rightarrow> Inl e
      | Inr line \<Rightarrow> Inr (out @ [line]))"

definition logger_warning :: "pystr \<Rightarrow> pystr list \<Rightarrow> error + pystr list" where
  "logger_warning msg out = logger_print (lit ''WARNING: '') msg out"

definition logger_error :: "pystr \<Rightarrow> pystr list \<Rightarrow> error + pystr list" where
  "logger_error msg out = logger_print (lit ''ERROR: '') msg out"

section \<open>urllib.parse.urlencode\<close>

text \<open>
  \<open>str.encode('utf-8')\<close> of one code point; a surrogate is not encodable
  (\<open>UnicodeEncodeError\<close>), and no \<open>str\<close> holds a code point from \<open>0x110000\<close> on.
\<close>

definition utf8_char :: "nat \<Rightarrow> nat list option" where
  "utf8_char c =
     (if c < 0x80 then Some [c]
      else if c < 0x800 then Some [0xC0 + c div 64, 0x80 + c mod 64]
      else if c < 0x10000 then
        (if 0xD800 \<le> c \<and> c \<le> 0xDFFF then None
         else Some [0xE0 + c div 4096, 0x80 + c div 64 mod 64, 0x80 + c mod 64])
      else if c < 0x110000 then
        Some [0xF0 + c div 262144, 0x80 + c div 4096 mod 64, 0x80 + c div 64 mod 64,
              0x80 + c mod 64]
      else None)"

fun utf8_encode :: "pystr \<Rightarrow> error + nat list" where
  "utf8_encode [] = Inr []"
| "utf8_encode (c # cs) =
     (case utf8_char c of
        None \<Rightarrow> Inl UnicodeEncodeError
      | Some bs \<Rightarrow> map_sum id ((@) bs) (utf8_encode cs))"

definition encodable :: "pystr \<Rightarrow> bool" where
  "encodable s = (\<forall>c \<in> set s. c < 0xD800 \<or> (0xDFFF < c \<and> c < 0x110000))"

text \<open>
  \<open>quote_plus\<close>: the bytes of the UTF-8 encoding, each kept when it is a letter, a digit
  or one of \<open>_.-~\<close>, a space written \<open>+\<close>, any other byte written \<open>%XX\<close> in upper-case hex.
\<close>

definition always_safe :: "nat \<Rightarrow> bool" where
  "always_safe b =
     ((65 \<le> b \<and> b \<le> 90) \<or> (97 \<le> b \<and> b \<le> 122) \<or> (48 \<le> b \<and> b \<le> 57)
      \<or> b = 95 \<or> b = 46 \<or> b = 45 \<or> b = 126)"

definition hex_upper :: "nat \<Rightarrow> nat" where
  "hex_upper n = (if n < 10 then 48 + n else 55 + n)"

definition quote_byte :: "nat \<Rightarrow> pystr" where
  "quote_byte b =
     (if always_safe b then [b]
      else if b = 32 then [43]
      else [37, hex_upper (b div 16), hex_upper (b mod 16)])"

definition quote_plus :: "pystr \<Rightarrow> error + pystr" where
  "quote_plus s = map_sum id (\<lambda>bs. concat (map quote_byte bs)) (utf8_encode s)"

text \<open>
  The values \<open>request\<close> stores in \<open>query_params\<close> are the query text, the \<open>int\<close> offset and
  the marker text; \<open>urlencode\<close> applies \<open>str\<close> to each and quotes keys and values.
\<close>

datatype qvalue = QStr pystr | QInt int

fun str_qvalue :: "qvalue \<Rightarrow> pystr" where
  "str_qvalue (QStr s) = s"
| "str_qvalue (QInt i) = str_int i"

fun urlencode_items :: "(pystr \<times> qvalue) list \<Rightarrow> error + pystr list" where
  "urlencode_items [] = Inr []"
| "urlencode_items ((k, v) # kvs) =
     (case quote_plus k of
        Inl e \<Rightarrow> Inl e
      | Inr k' \<Rightarrow>
          (case quote_plus (str_qvalue v) of
             Inl e \<Rightarrow> Inl e
           | Inr v' \<Rightarrow> map_sum id ((#) (k' @ lit ''='' @ v')) (urlencode_items kvs)))"

definition urlencode :: "(pystr \<times> qvalue) list \<Rightarrow> error + pystr" where
  "urlencode query = map_sum id (join (lit ''&'')) (urlencode_items query)"

section \<open>The request builder\<close>

definition base_url :: pystr where
  "base_url = lit ''https://www.bing.com/search''"

definition page_offset :: "int \<Rightarrow> int" where
  "page_offset pageno = (pageno - 1) * 10 + 1"

text \<open>
  \<open>set_bing_cookies\<close>: \<open>params['cookies']\<close> is created when absent, then two items are
  assigned into it; item assignment into a value that is no \<open>dict\<close> raises \<open>TypeError\<close>.
\<close>

definition set_bing_cookies :: "params \<Rightarrow> pystr \<Rightarrow> pystr \<Rightarrow> error + params" where
  "set_bing_cookies params engine_language_code engine_market_code =
     (let params1 = (if map_of params (lit ''cookies'') = None
                     then AList.update (lit ''cookies'') (PDict []) params else params)
      in case map_of params1 (lit ''cookies'') of
           Some (PDict cookies) \<Rightarrow>
             (let cookies1 = AList.update (lit ''_EDGE_CD'')
                    (lit ''m='' @ engine_market_code @ lit ''&u='' @ engine_language_code) cookies;
                  cookies2 = AList.update (lit ''_EDGE_S'')
                    (lit ''mkt='' @ engine_market_code @ lit ''&ui='' @ engine_language_code) cookies1
              in Inr (AList.update (lit ''cookies'') (PDict cookies2) params1))
         | _ \<Rightarrow> Inl TypeError)"

text \<open>
  The environment of a call: the global \<open>traits\<close> and the clock. \<open>time.time()\<close> is a float;
  the model takes the timestamp as a rational and leaves float rounding out.
  \<open>int(x)\<close> truncates towards zero.
\<close>

record env =
  traits :: EngineTraits
  time_time :: rat

definition int_trunc :: "rat \<Rightarrow> int" where
  "int_trunc x = (if 0 \<le> x then \<lfloor>x\<rfloor> else \<lceil>x\<rceil>)"

definition time_ranges_map :: "int \<Rightarrow> (pystr \<times> pystr) list" where
  "time_ranges_map unix_day =
     [(lit ''day'', lit ''1''),
      (lit ''week'', lit ''2''),
      (lit ''month'', lit ''3''),
      (lit ''year'', lit ''5_'' @ str_int (unix_day - 365) @ lit ''_'' @ str_int unix_day)]"

text \<open>
  The dictionary built in lines 203 to 214: \<open>q\<close> and \<open>pq\<close>, then \<open>first\<close> and \<open>FORM\<close> by
  the page number.
\<close>

definition query_params :: "pystr \<Rightarrow> int \<Rightarrow> (pystr \<times> qvalue) list" where
  "query_params query page =
     (let qp0 = [(lit ''q'', QStr query), (lit ''pq'', QStr query)];
          qp1 = (if page > 1 then AList.update (lit ''first'') (QInt (page_offset page)) qp0
                 else qp0)
      in if page = 2 then AList.update (lit ''FORM'') (QStr (lit ''PERE'')) qp1
         else if page > 2 then
           AList.update (lit ''FORM'') (QStr (lit ''PERE'' @ str_int (page - 2))) qp1
         else qp1)"

text \<open>
  A call either returns or raises; \<open>params\<close> is modified in place, so what was stored
  before a raise stays stored. The result is the final \<open>params\<close>, the lines printed, and
  the exception if one was raised.
\<close>

type_synonym outcome = "params \<times> pystr list \<times> error option"

text \<open>Lines 218 to 232: the time-range filter.\<close>

definition filter_fragment :: "pystr \<Rightarrow> pystr" where
  "filter_fragment v = lit ''&filters=ex1:'' @ [34] @ lit ''ez'' @ v @ [34]"

definition append_url :: "pystr \<Rightarrow> params \<Rightarrow> error + params" where
  "append_url s params =
     (case map_of params (lit ''url'') of
        Some (PStr u) \<Rightarrow> Inr (AList.update (lit ''url'') (PStr (u @ s)) params)
      | _ \<Rightarrow> Inl TypeError)"

definition unsupported_time_range :: "pystr \<Rightarrow> params \<Rightarrow> outcome" where
  "unsupported_time_range shown params =
     (case logger_warning (lit ''Unsupported time_range specified: '' @ shown) [] of
        Inl e \<Rightarrow> (params, [], Some e)
      | Inr out \<Rightarrow> (params, out, None))"

definition time_range_filter :: "env \<Rightarrow> params \<Rightarrow> outcome" where
  "time_range_filter env params =
     (let tr = dict_get params (lit ''time_range'') PNone in
      if truthy tr then
        (let unix_day = int_trunc (time_time env / 86400) in
         case tr of
           PDict d \<Rightarrow> (params, [], Some TypeError)
         | PStr s \<Rightarrow>
             (case map_of (time_ranges_map unix_day) s of
                Some time_range_filter_value \<Rightarrow>
                  (case append_url (filter_fragment time_range_filter_value) params of
                     Inl e \<Rightarrow> (params, [], Some e)
                   | Inr params1 \<Rightarrow> (params1, [], None))
              | None \<Rightarrow> unsupported_time_range s params)
         | PInt i \<Rightarrow> unsupported_time_range (str_int i) params
         | PNone \<Rightarrow> (params, [], None))
      else (params, [], None))"

definition default_headers :: "(pystr \<times> pystr) list" where
  "default_headers =
     [(lit ''User-Agent'',
       lit ''Mozilla/5.0 (Windows NT 10.0; Win64; x64) AppleWebKit/537.36 (KHTML, like Gecko) Chrome/91.0.4472.124 Safari/537.36''),
      (lit ''Accept'',
       lit ''text/html,application/xhtml+xml,application/xml;q=0.9,image/webp,*/*;q=0.8''),
      (lit ''Accept-Language'', lit ''en-US,en;q=0.5''),
      (lit ''Accept-Encoding'', lit ''gzip, deflate, br''),
      (lit ''DNT'', lit ''1''),
      (lit ''Connection'', lit ''keep-alive''),
      (lit ''Upgrade-Insecure-Requests'', lit ''1''),
      (lit ''Sec-GPC'', lit ''1''),
      (lit ''Cache-Control'', lit ''max-age=0'')]"

definition set_default_headers :: "params \<Rightarrow> params" where
  "set_default_headers params =
     (if map_of params (lit ''headers'') = None
      then AList.update (lit ''headers'') (PDict default_headers) params
      else params)"

definition request :: "env \<Rightarrow> pystr \<Rightarrow> params \<Rightarrow> outcome" where
  "request env query params =
     (let locale = dict_get params (lit ''searxng_locale'') (PStr (lit ''en-US'')) in
      case get_region (traits env) locale (all_locale (traits env)) of
        Inl e \<Rightarrow> (params, [], Some e)
      | Inr bing_market_code \<Rightarrow>
      (case get_language (traits env) locale bing_market_code of
        Inl e \<Rightarrow> (params, [], Some e)
      | Inr bing_language_code \<Rightarrow>
      (case set_bing_cookies params bing_language_code bing_market_code of
        Inl e \<Rightarrow> (params, [], Some e)
      | Inr params1 \<Rightarrow>
      (case dict_get params1 (lit ''pageno'') (PInt 1) of
        PInt page \<Rightarrow>
          (case urlencode (query_params query page) of
             Inl e \<Rightarrow> (params1, [], Some e)
           | Inr encoded \<Rightarrow>
               (let params2 = AList.update (lit ''url'')
                                (PStr (base_url @ lit ''?'' @ encoded)) params1
                in case time_range_filter env params2 of
                     (params3, out, Some e) \<Rightarrow> (params3, out, Some e)
                   | (params3, out, None) \<Rightarrow> (set_default_headers params3, out, None)))
      | _ \<Rightarrow> (params1, [], Some TypeError)))))"


text \<open>
  The typing of \<open>params\<close> that the docstring of \<open>request\<close> describes and \<open>perform_search\<close>
  builds: an \<open>int\<close> page number, a \<open>str\<close> locale, a \<open>str\<close> (or \<open>None\<close>) time range, and
  dictionaries for cookies and headers, each when present.
\<close>

definition params_typed :: "params \<Rightarrow> bool" where
  "params_typed params =
     ((case map_of params (lit ''pageno'') of None \<Rightarrow> True | Some (PInt i) \<Rightarrow> True | _ \<Rightarrow> False)
    \<and> (case map_of params (lit ''searxng_locale'') of None \<Rightarrow> True | Some (PStr s) \<Rightarrow> True | _ \<Rightarrow> False)
    \<and> (case map_of params (lit ''time_range'') of
          None \<Rightarrow> True | Some PNone \<Rightarrow> True | Some (PStr s) \<Rightarrow> True | _ \<Rightarrow> False)
    \<and> (case map_of params (lit ''cookies'') of None \<Rightarrow> True | Some (PDict d) \<Rightarrow> True | _ \<Rightarrow> False)
    \<and> (case map_of params (lit ''headers'') of None \<Rightarrow> True | Some (PDict d) \<Rightarrow> True | _ \<Rightarrow> False))"

section \<open>Library calls of the redirect decoder\<close>

subsection \<open>bytes.decode()\<close>

text \<open>
  One step of CPython's UTF-8 decoder on the byte \<open>b0\<close> and the bytes after it: a code
  point and the number of bytes it took, or the reason of the failure and the number of
  bytes the error covers. The strict decoder turns the failure into the message of the
  \<open>UnicodeDecodeError\<close>; the \<open>errors='replace'\<close> decoder (used by \<open>unquote\<close>) writes
  \<open>U+FFFD\<close> and goes on after the covered bytes.
\<close>

datatype utf8_result = Decoded nat nat | Malformed pystr nat

definition is_cont :: "nat \<Rightarrow> bool" where
  "is_cont b = (0x80 \<le> b \<and> b < 0xC0)"

definition utf8_step :: "nat \<Rightarrow> nat list \<Rightarrow> utf8_result" where
  "utf8_step b0 rest =
     (if b0 < 0x80 then Decoded b0 1
      else if b0 < 0xC2 then Malformed (lit ''invalid start byte'') 1
      else if b0 < 0xE0 then
        (case rest of
           [] \<Rightarrow> Malformed (lit ''unexpected end of data'') 1
         | b1 # r1 \<Rightarrow>
             if \<not> is_cont b1 then Malformed (lit ''invalid continuation byte'') 1
             else Decoded ((b0 - 0xC0) * 64 + (b1 - 0x80)) 2)
      else if b0 < 0xF0 then
        (case rest of
           [] \<Rightarrow> Malformed (lit ''unexpected end of data'') 1
         | b1 # r1 \<Rightarrow>
             if \<not> is_cont b1 \<or> (b0 = 0xE0 \<and> b1 < 0xA0) \<or> (b0 = 0xED \<and> 0xA0 \<le> b1)
             then Malformed (lit ''invalid continuation byte'') 1
             else (case r1 of
                     [] \<Rightarrow> Malformed (lit ''unexpected end of data'') 2
                   | b2 # r2 \<Rightarrow>
                       if \<not> is_cont b2 then Malformed (lit ''invalid continuation byte'') 2
                       else Decoded ((b0 - 0xE0) * 4096 + (b1 - 0x80) * 64 + (b2 - 0x80)) 3))
      else if b0 < 0xF5 then
        (case rest of
           [] \<Rightarrow> Malformed (lit ''unexpected end of data'') 1
         | b1 # r1 \<Rightarrow>
             if \<not> is_cont b1 \<or> (b0 = 0xF0 \<and> b1 < 0x90) \<or> (b0 = 0xF4 \<and> 0x90 \<le> b1)
             then Malformed (lit ''invalid continuation byte'') 1
             else (case r1 of
                     [] \<Rightarrow> Malformed (lit ''unexpected end of data'') 2
                   | b2 # r2 \<Rightarrow>
                       if \<not> is_cont b2 then Malformed (lit ''invalid continuation byte'') 2
                       else (case r2 of
                               [] \<Rightarrow> Malformed (lit ''unexpected end of data'') 3
                             | b3 # r3 \<Rightarrow>
                                 if \<not> is_cont b3
                                 then Malformed (lit ''invalid continuation byte'') 3
                                 else Decoded ((b0 - 0xF0) * 262144 + (b1 - 0x80) * 4096
                                               + (b2 - 0x80) * 64 + (b3 - 0x80)) 4)))
      else Malformed (lit ''invalid start byte'') 1)"

definition hex_lower :: "nat \<Rightarrow> nat" where
  "hex_lower n = (if n < 10 then 48 + n else 87 + n)"

text \<open>The message of the \<open>UnicodeDecodeError\<close>; \<open>39\<close> is the apostrophe.\<close>

definition decode_error_text :: "nat \<Rightarrow> nat \<Rightarrow> nat \<Rightarrow> pystr \<Rightarrow> pystr" where
  "decode_error_text b pos n reason =
     (if n = 1 then
        [39] @ lit ''utf-8'' @ [39] @ lit '' codec can'' @ [39] @ lit ''t decode byte 0x''
        @ [hex_lower (b div 16), hex_lower (b mod 16)]
        @ lit '' in position '' @ str_int (int pos) @ lit '': '' @ reason
      else
        [39] @ lit ''utf-8'' @ [39] @ lit '' codec can'' @ [39] @ lit ''t decode bytes in position ''
        @ str_int (int pos) @ lit ''-'' @ str_int (int (pos + n - 1)) @ lit '': '' @ reason)"

function utf8_decode :: "nat \<Rightarrow> nat list \<Rightarrow> pystr + pystr" where
  "utf8_decode pos [] = Inr []"
| "utf8_decode pos (b # bs) =
     (case utf8_step b bs of
        Decoded cp n \<Rightarrow> map_sum id ((#) cp) (utf8_decode (pos + n) (drop (n - 1) bs))
      | Malformed reason n \<Rightarrow> Inl (decode_error_text b pos n reason))"
  by pat_completeness auto
termination
  by (relation "measure (\<lambda>(pos, bs). length bs)") auto

function utf8_decode_replace :: "nat list \<Rightarrow> pystr" where
  "utf8_decode_replace [] = []"
| "utf8_decode_replace (b # bs) =
     (case utf8_step b bs of
        Decoded cp n \<Rightarrow> cp # utf8_decode_replace (drop (n - 1) bs)
      | Malformed reason n \<Rightarrow> 0xFFFD # utf8_decode_replace (drop (n - 1) bs))"
  by pat_completeness auto
termination
  by (relation "measure length") auto

subsection \<open>base64.urlsafe\_b64decode\<close>

text \<open>
  The text is encoded to ASCII (a \<open>ValueError\<close> for any other character), \<open>-\<close> and \<open>_\<close>
  are translated to \<open>+\<close> and \<open>/\<close>, and \<open>binascii.a2b_base64\<close> runs in its lenient mode:
  characters outside the alphabet are skipped, a padding character ends the input once
  the current quad holds two characters and the padding fills it, and what is left of an
  unfinished quad at the end is an error. \<open>b64_value\<close> is the alphabet after the
  translation; \<open>a2b\<close> carries the position in the quad, the bits left over, the padding
  seen and the number of bytes written (the error message quotes it).
\<close>

definition b64_value :: "nat \<Rightarrow> nat option" where
  "b64_value c =
     (if 65 \<le> c \<and> c \<le> 90 then Some (c - 65)
      else if 97 \<le> c \<and> c \<le> 122 then Some (c - 71)
      else if 48 \<le> c \<and> c \<le> 57 then Some (c + 4)
      else if c = 43 \<or> c = 45 then Some 62
      else if c = 47 \<or> c = 95 then Some 63
      else None)"

fun a2b :: "nat \<Rightarrow> nat \<Rightarrow> nat \<Rightarrow> nat \<Rightarrow> pystr \<Rightarrow> pystr + nat list" where
  "a2b quad_pos leftchar pads written [] =
     (if quad_pos = 0 then Inr []
      else if quad_pos = 1 then
        Inl (lit ''Invalid base64-encoded string: number of data characters (''
             @ str_int (int (written div 3 * 4 + 1))
             @ lit '') cannot be 1 more than a multiple of 4'')
      else Inl (lit ''Incorrect padding''))"
| "a2b quad_pos leftchar pads written (c # cs) =
     (if c = 61 then
        (if 2 \<le> quad_pos \<and> 4 \<le> quad_pos + (pads + 1) then Inr []
         else a2b quad_pos leftchar (if 2 \<le> quad_pos then pads + 1 else pads) written cs)
      else
        (case b64_value c of
           None \<Rightarrow> a2b quad_pos leftchar pads written cs
         | Some v \<Rightarrow>
             if quad_pos = 0 then a2b 1 v 0 written cs
             else if quad_pos = 1 then
               map_sum id ((#) (leftchar * 4 + v div 16)) (a2b 2 (v mod 16) 0 (written + 1) cs)
             else if quad_pos = 2 then
               map_sum id ((#) (leftchar * 16 + v div 4)) (a2b 3 (v mod 4) 0 (written + 1) cs)
             else
               map_sum id ((#) (leftchar * 64 + v)) (a2b 0 0 0 (written + 1) cs)))"

definition urlsafe_b64decode :: "pystr \<Rightarrow> pystr + nat list" where
  "urlsafe_b64decode s =
     (if \<exists>c \<in> set s. 128 \<le> c
      then Inl (lit ''string argument should contain only ASCII characters'')
      else a2b 0 0 0 0 s)"

text \<open>
  \<open>base64.urlsafe_b64encode\<close>, the encoder the decoder is measured against, and the same
  text without its padding (the form the tracking links carry).
\<close>

definition b64_char :: "nat \<Rightarrow> nat" where
  "b64_char v =
     (if v < 26 then 65 + v
      else if v < 52 then 71 + v
      else if v < 62 then v - 4
      else if v = 62 then 45
      else 95)"

fun urlsafe_b64encode :: "nat list \<Rightarrow> pystr" where
  "urlsafe_b64encode [] = []"
| "urlsafe_b64encode [a] = [b64_char (a div 4), b64_char (a mod 4 * 16), 61, 61]"
| "urlsafe_b64encode [a, b] =
     [b64_char (a div 4), b64_char (a mod 4 * 16 + b div 16), b64_char (b mod 16 * 4), 61]"
| "urlsafe_b64encode (a # b # c # bs) =
     [b64_char (a div 4), b64_char (a mod 4 * 16 + b div 16),
      b64_char (b mod 16 * 4 + c div 64), b64_char (c mod 64)] @ urlsafe_b64encode bs"

definition unpadded :: "pystr \<Rightarrow> pystr" where
  "unpadded s = filter (\<lambda>c. c \<noteq> 61) s"

subsection \<open>urlparse and parse\_qs\<close>

text \<open>
  \<open>unquote\<close>: in every run of ASCII characters \<open>%XX\<close> with two hex digits becomes the
  byte \<open>XX\<close> and the run is decoded as UTF-8 with \<open>errors='replace'\<close>; other characters
  stay. \<open>unq\<close> carries the bytes of the current run.
\<close>

definition hexval :: "nat \<Rightarrow> nat option" where
  "hexval c =
     (if 48 \<le> c \<and> c \<le> 57 then Some (c - 48)
      else if 65 \<le> c \<and> c \<le> 70 then Some (c - 55)
      else if 97 \<le> c \<and> c \<le> 102 then Some (c - 87)
      else None)"

fun unq :: "nat list \<Rightarrow> pystr \<Rightarrow> pystr" where
  "unq run [] = utf8_decode_replace run"
| "unq run [c] =
     (if 128 \<le> c then utf8_decode_replace run @ [c] else utf8_decode_replace (run @ [c]))"
| "unq run [c, d] =
     (if 128 \<le> c then utf8_decode_replace run @ c # unq [] [d] else unq (run @ [c]) [d])"
| "unq run (c # h1 # h2 # cs) =
     (if 128 \<le> c then utf8_decode_replace run @ c # unq [] (h1 # h2 # cs)
      else if c = 37 then
        (case (hexval h1, hexval h2) of
           (Some x, Some y) \<Rightarrow> unq (run @ [16 * x + y]) cs
         | _ \<Rightarrow> unq (run @ [c]) (h1 # h2 # cs))
      else unq (run @ [c]) (h1 # h2 # cs))"

definition unquote :: "pystr \<Rightarrow> pystr" where
  "unquote s = unq [] s"

text \<open>\<open>s.split(sep)\<close> for a separator of one character.\<close>

fun split_on :: "nat \<Rightarrow> pystr \<Rightarrow> pystr list" where
  "split_on sep [] = [[]]"
| "split_on sep (c # cs) =
     (if c = sep then [] # split_on sep cs
      else (case split_on sep cs of
              [] \<Rightarrow> [[c]]
            | p # ps \<Rightarrow> (c # p) # ps))"

definition plus_to_space :: "pystr \<Rightarrow> pystr" where
  "plus_to_space s = map (\<lambda>c. if c = 43 then 32 else c) s"

text \<open>
  \<open>parse_qsl\<close> with its defaults: the fields between \<open>&\<close>; a field without \<open>=\<close> or
  with an empty value is dropped; \<open>+\<close> is a space; name and value are unquoted.
  \<open>parse_qs(qs).get(key)\<close> is the list of the values of the fields named \<open>key\<close>.
\<close>

definition parse_field :: "pystr \<Rightarrow> (pystr \<times> pystr) list" where
  "parse_field field =
     (if 61 \<in> set field then
        (let name = takeWhile (\<lambda>c. c \<noteq> 61) field;
             val = drop 1 (dropWhile (\<lambda>c. c \<noteq> 61) field)
         in if val = [] then []
            else [(unquote (plus_to_space name), unquote (plus_to_space val))])
      else [])"

definition parse_qsl :: "pystr \<Rightarrow> (pystr \<times> pystr) list" where
  "parse_qsl qs = concat (map parse_field (split_on 38 qs))"

definition parse_qs_get :: "pystr \<Rightarrow> pystr \<Rightarrow> pystr list option" where
  "parse_qs_get qs key =
     (case map snd (filter (\<lambda>nv. fst nv = key) (parse_qsl qs)) of
        [] \<Rightarrow> None
      | v # vs \<Rightarrow> Some (v # vs))"

text \<open>
  \<open>urlparse(url).query\<close> is called under the guard of line 301 only, on a \<open>url\<close> that
  begins with the tracking prefix. There \<open>urlsplit\<close> removes tab, line feed and carriage
  return, finds the scheme \<open>https\<close> and the host \<open>www.bing.com\<close>, cuts the fragment at
  the first \<open>#\<close> and the query at the first \<open>?\<close>, which is the one that ends the prefix.
\<close>

definition tracking_prefix :: pystr where
  "tracking_prefix = lit ''https://www.bing.com/ck/a?''"

definition startswith :: "pystr \<Rightarrow> pystr \<Rightarrow> bool" where
  "startswith s p = (take (length p) s = p)"

definition tracking_query :: "pystr \<Rightarrow> pystr" where
  "tracking_query url =
     takeWhile (\<lambda>c. c \<noteq> 35)
       (drop (length tracking_prefix) (filter (\<lambda>c. c \<noteq> 9 \<and> c \<noteq> 10 \<and> c \<noteq> 13) url))"

section \<open>The redirect decoder (lines 298 to 316 of response)\<close>

definition b64_decode_text :: "pystr \<Rightarrow> pystr + pystr" where
  "b64_decode_text s =
     (case urlsafe_b64decode s of
        Inl msg \<Rightarrow> Inl msg
      | Inr bs \<Rightarrow> utf8_decode 0 bs)"

text \<open>
  The result is the \<open>url\<close> after the block and the lines printed so far, or the exception
  that leaves the block: the two logger calls go through the \<open>%\<close> operator.
\<close>

definition decode_redirect ::
  "pystr option \<Rightarrow> pystr list \<Rightarrow> error + (pystr option \<times> pystr list)" where
  "decode_redirect url out =
     (case url of
        None \<Rightarrow> Inr (None, out)
      | Some u \<Rightarrow>
          if u \<noteq> [] \<and> startswith u tracking_prefix then
            (let url_query_string = tracking_query u in
             case parse_qs_get url_query_string (lit ''u'') of
               Some (encoded_url_with_prefix # others) \<Rightarrow>
                 (let actual_encoded_url = drop 2 encoded_url_with_prefix;
                      actual_encoded_url_padded =
                        actual_encoded_url
                        @ replicate ((4 - length actual_encoded_url mod 4) mod 4) 61
                  in case b64_decode_text actual_encoded_url_padded of
                       Inr decoded \<Rightarrow> Inr (Some decoded, out)
                     | Inl e \<Rightarrow>
                         (case logger_error (lit ''Error decoding Bing redirect URL: '' @ e
                                             @ lit ''. Original URL: '' @ u) out of
                            Inl err \<Rightarrow> Inl err
                          | Inr out1 \<Rightarrow> Inr (Some u, out1)))
             | _ \<Rightarrow>
                 (case logger_warning
                         (lit ''Could not parse '' @ [39] @ lit ''u'' @ [39]
                          @ lit '' parameter from Bing redirect URL: '' @ u) out of
                    Inl err \<Rightarrow> Inl err
                  | Inr out1 \<Rightarrow> Inr (Some u, out1)))
          else Inr (Some u, out))"

section \<open>The parsed document\<close>

text \<open>
  \<open>html.fromstring\<close> gives an lxml tree. An lxml element holds its tag, its attributes, the
  text before its first child, its children, and its tail: the text that follows the element
  inside its parent. The document is given by its root element.

  \<open>response\<close> removes elements while it reads the tree, and it holds elements (the result
  blocks, the paragraphs) that it found before the removal. An element is therefore named by
  its path from the root (child indices in the tree as parsed) together with its subtree as
  parsed, and the state of the tree is the list of the paths removed so far:
  \<open>parent.remove(child)\<close> takes the child out of the children of its parent, and the tail of the
  child goes with it. A removed element keeps its own children.
\<close>

datatype elem =
  Elem (elem_tag: pystr) (elem_attrib: "(pystr \<times> pystr) list") (elem_text: pystr)
       (elem_children: "elem list") (elem_tail: pystr)

type_synonym path = "nat list"

type_synonym node = "path \<times> elem"

text \<open>
  The descendants of an element that are still attached below it, in document order, each
  with its parent.
\<close>

fun walk :: "path list \<Rightarrow> path \<Rightarrow> elem \<Rightarrow> (elem \<times> node) list"
  and walk_children :: "path list \<Rightarrow> path \<Rightarrow> elem \<Rightarrow> nat \<Rightarrow> elem list \<Rightarrow> (elem \<times> node) list"
where
  "walk rm p (Elem t a tx cs ta) = walk_children rm p (Elem t a tx cs ta) 0 cs"
| "walk_children rm p parent i [] = []"
| "walk_children rm p parent i (c # cs) =
     (if p @ [i] \<in> set rm then [] else (parent, (p @ [i], c)) # walk rm (p @ [i]) c)
     @ walk_children rm p parent (i + 1) cs"

text \<open>\<open>text_content()\<close>: the text of the element and of what is attached below it.\<close>

fun text_content :: "path list \<Rightarrow> path \<Rightarrow> elem \<Rightarrow> pystr"
  and text_content_children :: "path list \<Rightarrow> path \<Rightarrow> nat \<Rightarrow> elem list \<Rightarrow> pystr"
where
  "text_content rm p (Elem t a tx cs ta) = tx @ text_content_children rm p 0 cs"
| "text_content_children rm p i [] = []"
| "text_content_children rm p i (c # cs) =
     (if p @ [i] \<in> set rm then [] else text_content rm (p @ [i]) c @ elem_tail c)
     @ text_content_children rm p (i + 1) cs"

text \<open>\<open>sub in s\<close> for text, and the attribute tests of the XPath queries.\<close>

fun contains :: "pystr \<Rightarrow> pystr \<Rightarrow> bool" where
  "contains [] sub = (sub = [])"
| "contains (c # cs) sub = (startswith (c # cs) sub \<or> contains cs sub)"

definition has_class :: "pystr \<Rightarrow> elem \<Rightarrow> bool" where
  "has_class cls e = (map_of (elem_attrib e) (lit ''class'') = Some cls)"

definition is_results_list :: "elem \<Rightarrow> bool" where
  "is_results_list e =
     (elem_tag e = lit ''ol'' \<and> map_of (elem_attrib e) (lit ''id'') = Some (lit ''b_results''))"

definition is_result_item :: "elem \<Rightarrow> bool" where
  "is_result_item e =
     (elem_tag e = lit ''li'' \<and>
      (case map_of (elem_attrib e) (lit ''class'') of
         None \<Rightarrow> False
       | Some cls \<Rightarrow> contains cls (lit ''b_algo'')))"

text \<open>
  The four element queries. \<open>//ol[@id="b_results"]/li[contains(@class, "b_algo")]\<close> runs on
  the document before anything is removed; the other three run from an element on the
  current tree. In \<open>.//h2/a\<close> the \<open>h2\<close> is below the element the query starts from.
\<close>

definition xpath_results :: "elem \<Rightarrow> node list" where
  "xpath_results doc =
     map snd (filter (\<lambda>(parent, n). is_results_list parent \<and> is_result_item (snd n))
                (walk [] [] doc))"

definition xpath_h2_a :: "path list \<Rightarrow> node \<Rightarrow> node list" where
  "xpath_h2_a rm ctx =
     map snd (filter (\<lambda>(parent, n). elem_tag (snd n) = lit ''a'' \<and> elem_tag parent = lit ''h2''
                                  \<and> length (fst n) \<noteq> length (fst ctx) + 1)
                (walk rm (fst ctx) (snd ctx)))"

definition xpath_p :: "path list \<Rightarrow> node \<Rightarrow> node list" where
  "xpath_p rm ctx =
     map snd (filter (\<lambda>(parent, n). elem_tag (snd n) = lit ''p'') (walk rm (fst ctx) (snd ctx)))"

definition xpath_icons :: "path list \<Rightarrow> node \<Rightarrow> node list" where
  "xpath_icons rm ctx =
     map snd (filter (\<lambda>(parent, n). elem_tag (snd n) = lit ''span''
                                  \<and> has_class (lit ''algoSlug_icon'') (snd n))
                (walk rm (fst ctx) (snd ctx)))"

text \<open>
  \<open>//span[@class="sb_count"]//text()\<close>: the text nodes (texts and tails) that lie inside a
  \<open>span\<close> of class \<open>sb_count\<close>, each once, in document order.
\<close>

definition is_count_span :: "elem \<Rightarrow> bool" where
  "is_count_span e = (elem_tag e = lit ''span'' \<and> has_class (lit ''sb_count'') e)"

fun count_texts :: "path list \<Rightarrow> bool \<Rightarrow> path \<Rightarrow> elem \<Rightarrow> pystr list"
  and count_texts_children :: "path list \<Rightarrow> bool \<Rightarrow> path \<Rightarrow> nat \<Rightarrow> elem list \<Rightarrow> pystr list"
where
  "count_texts rm inside p (Elem t a tx cs ta) =
     (let inside1 = (inside \<or> is_count_span (Elem t a tx cs ta))
      in (if inside1 \<and> tx \<noteq> [] then [tx] else []) @ count_texts_children rm inside1 p 0 cs)"
| "count_texts_children rm inside p i [] = []"
| "count_texts_children rm inside p i (c # cs) =
     (if p @ [i] \<in> set rm then []
      else count_texts rm inside (p @ [i]) c
           @ (if inside \<and> elem_tail c \<noteq> [] then [elem_tail c] else []))
     @ count_texts_children rm inside p (i + 1) cs"

section \<open>Utility functions\<close>

text \<open>
  \<open>str.strip()\<close> removes the characters for which \<open>str.isspace\<close> holds from both ends.
\<close>

definition is_space :: "nat \<Rightarrow> bool" where
  "is_space c =
     ((9 \<le> c \<and> c \<le> 13) \<or> (28 \<le> c \<and> c \<le> 32) \<or> c = 0x85 \<or> c = 0xA0 \<or> c = 0x1680
      \<or> (0x2000 \<le> c \<and> c \<le> 0x200A) \<or> c = 0x2028 \<or> c = 0x2029 \<or> c = 0x202F
      \<or> c = 0x205F \<or> c = 0x3000)"

definition strip :: "pystr \<Rightarrow> pystr" where
  "strip s = rev (dropWhile is_space (rev (dropWhile is_space s)))"

text \<open>
  \<open>eval_xpath\<close> and \<open>eval_xpath_list\<close> return what the query returns (the element is never
  \<open>None\<close> and the queries are well formed, so their \<open>except\<close> branch is not taken);
  \<open>eval_xpath_getindex\<close> picks the result at \<open>index\<close>. \<open>extract_text\<close> is called on one
  element or on a list of elements: it joins their \<open>text_content()\<close> with a space and
  strips the result.
\<close>

definition eval_xpath_getindex :: "'a list \<Rightarrow> nat \<Rightarrow> 'a option \<Rightarrow> 'a option" where
  "eval_xpath_getindex results index dflt =
     (if results \<noteq> [] \<and> index < length results then Some (results ! index) else dflt)"

definition extract_text :: "path list \<Rightarrow> node list \<Rightarrow> pystr" where
  "extract_text rm elements =
     strip (join (lit '' '') (map (\<lambda>(p, e). text_content rm p e) elements))"

section \<open>The response parser\<close>

datatype result =
  Item (item_url: "pystr option") (item_title: pystr) (item_content: pystr)
| Summary (number_of_results: int)

text \<open>
  Lines 292 to 295: for every paragraph, the badge spans found below it are removed from
  their parents. The spans of one query are attached when the query runs, so
  \<open>getparent()\<close> is not \<open>None\<close> for any of them, also for a span inside a span removed
  just before.
\<close>

fun remove_icons :: "path list \<Rightarrow> node list \<Rightarrow> path list" where
  "remove_icons rm [] = rm"
| "remove_icons rm (p_elem # ps) = remove_icons (rm @ map fst (xpath_icons rm p_elem)) ps"

text \<open>
  The body of the loop over the result blocks (lines 280 to 318). The state is the removed
  paths, the lines printed, and \<open>results\<close>.
\<close>

type_synonym parse_state = "path list \<times> pystr list \<times> result list"

definition result_step :: "node \<Rightarrow> parse_state \<Rightarrow> error + parse_state" where
  "result_step result_item_element st =
     (case st of (rm, out, results) \<Rightarrow>
        (case eval_xpath_getindex (xpath_h2_a rm result_item_element) 0 None of
           None \<Rightarrow> Inr (rm, out, results)
         | Some link_element \<Rightarrow>
             (let url = map_of (elem_attrib (snd link_element)) (lit ''href'');
                  title = extract_text rm [link_element];
                  content_paragraph_elements = xpath_p rm result_item_element;
                  rm1 = remove_icons rm content_paragraph_elements;
                  content = extract_text rm1 content_paragraph_elements
              in case decode_redirect url out of
                   Inl e \<Rightarrow> Inl e
                 | Inr (url1, out1) \<Rightarrow> Inr (rm1, out1, results @ [Item url1 title content]))))"

fun extract_results :: "node list \<Rightarrow> parse_state \<Rightarrow> error + parse_state" where
  "extract_results [] st = Inr st"
| "extract_results (result_item_element # rest) st =
     (case result_step result_item_element st of
        Inl e \<Rightarrow> Inl e
      | Inr st1 \<Rightarrow> extract_results rest st1)"

subsection \<open>The result count (lines 325 to 354)\<close>

text \<open>
  \<open>\d\<close> in a \<open>str\<close> pattern matches the decimal digits of Unicode (category \<open>Nd\<close>); the
  table is the one of Unicode 14, which CPython 3.11 carries.
\<close>

definition decimal_ranges :: "(nat \<times> nat) list" where
  "decimal_ranges =
     [(48, 57), (1632, 1641), (1776, 1785), (1984, 1993), (2406, 2415), (2534, 2543),
      (2662, 2671), (2790, 2799), (2918, 2927), (3046, 3055), (3174, 3183), (3302, 3311),
      (3430, 3439), (3558, 3567), (3664, 3673), (3792, 3801), (3872, 3881), (4160, 4169),
      (4240, 4249), (6112, 6121), (6160, 6169), (6470, 6479), (6608, 6617), (6784, 6793),
      (6800, 6809), (6992, 7001), (7088, 7097), (7232, 7241), (7248, 7257), (42528, 42537),
      (43216, 43225), (43264, 43273), (43472, 43481), (43504, 43513), (43600, 43609),
      (44016, 44025), (65296, 65305), (66720, 66729), (68912, 68921), (69734, 69743),
      (69872, 69881), (69942, 69951), (70096, 70105), (70384, 70393), (70736, 70745),
      (70864, 70873), (71248, 71257), (71360, 71369), (71472, 71481), (71904, 71913),
      (72016, 72025), (72784, 72793), (73040, 73049), (73120, 73129), (92768, 92777),
      (92864, 92873), (93008, 93017), (120782, 120831), (123200, 123209), (123632, 123641),
      (125264, 125273), (130032, 130041)]"

definition is_decimal :: "nat \<Rightarrow> bool" where
  "is_decimal c = list_ex (\<lambda>(lo, hi). lo \<le> c \<and> c \<le> hi) decimal_ranges"

text \<open>
  \<open>re.split(r'-\d+', s, maxsplit=1)\<close>: the text before and the text after the first \<open>-\<close>
  that a digit follows (with all the digits after it), or nothing when there is none.
\<close>

fun split_dash_digits :: "pystr \<Rightarrow> (pystr \<times> pystr) option" where
  "split_dash_digits [] = None"
| "split_dash_digits [c] = None"
| "split_dash_digits (c # d # cs) =
     (if c = 45 \<and> is_decimal d then Some ([], dropWhile is_decimal cs)
      else map_option (\<lambda>(before, after). (c # before, after)) (split_dash_digits (d # cs)))"

text \<open>\<open>s.split('of')\<close> and \<open>re.sub(r'[^0-9]', '', s)\<close>.\<close>

fun split_of :: "pystr \<Rightarrow> pystr list" where
  "split_of [] = [[]]"
| "split_of [c] = [[c]]"
| "split_of (c # d # cs) =
     (if c = 111 \<and> d = 102 then [] # split_of cs
      else (case split_of (d # cs) of
              [] \<Rightarrow> [[c]]
            | p # ps \<Rightarrow> (c # p) # ps))"

definition digits_only :: "pystr \<Rightarrow> pystr" where
  "digits_only s = filter (\<lambda>c. 48 \<le> c \<and> c \<le> 57) s"

text \<open>
  \<open>int(s)\<close> on a text of ASCII digits: its value, or \<open>ValueError\<close> when the text is longer
  than the limit of \<open>sys.get_int_max_str_digits()\<close> (4300 by default, 0 for no limit).
\<close>

definition decimal_value :: "pystr \<Rightarrow> int" where
  "decimal_value s = foldl (\<lambda>v c. 10 * v + int (c - 48)) 0 s"

definition py_int :: "nat \<Rightarrow> pystr \<Rightarrow> error + int" where
  "py_int max_digits s =
     (if 0 < max_digits \<and> max_digits < length s then Inl ValueError
      else Inr (decimal_value s))"

text \<open>
  The environment of \<open>response\<close>: the HTML parser, an exception or the root of the parsed
  document, and the digit limit of \<open>int\<close>.
\<close>

record parser_env =
  html_fromstring :: "pystr \<Rightarrow> error + elem"
  int_max_str_digits :: nat

definition result_count_container_str :: "path list \<Rightarrow> elem \<Rightarrow> pystr" where
  "result_count_container_str rm doc = strip (concat (count_texts rm False [] doc))"

text \<open>
  The start index and the total read from the count text, with the lines printed. The
  \<open>int\<close> of line 339 is outside any \<open>try\<close>; the one of line 348 is inside, and its handler
  logs a message that quotes the count text.
\<close>

definition parse_count ::
  "nat \<Rightarrow> pystr \<Rightarrow> pystr list \<Rightarrow> error + (int \<times> int \<times> pystr list)" where
  "parse_count max_digits s out =
     (let parts = split_dash_digits s;
          first_part_numeric = digits_only (case parts of None \<Rightarrow> s | Some (before, after) \<Rightarrow> before);
          start = (if contains s (lit ''-'') \<and> first_part_numeric \<noteq> []
                   then py_int max_digits first_part_numeric else Inr 1);
          potential_total_count_str =
            (if contains s (lit ''of'') then last (split_of s)
             else (case parts of None \<Rightarrow> s | Some (before, after) \<Rightarrow> after));
          numeric_part_of_total_count =
            (if contains s (lit ''-'') then digits_only potential_total_count_str
             else digits_only s)
      in case start of
           Inl e \<Rightarrow> Inl e
         | Inr current_page_start_index \<Rightarrow>
             if numeric_part_of_total_count \<noteq> [] then
               (case py_int max_digits numeric_part_of_total_count of
                  Inr total_results_count \<Rightarrow>
                    Inr (current_page_start_index, total_results_count, out)
                | Inl e \<Rightarrow>
                    (case logger_warning
                            (lit ''Could not parse total_results_count from: '' @ [39]
                             @ numeric_part_of_total_count @ [39]
                             @ lit '' (derived from raw string: '' @ [39] @ s @ [39] @ lit '')'')
                            out of
                       Inl err \<Rightarrow> Inl err
                     | Inr out1 \<Rightarrow> Inr (current_page_start_index, 0, out1)))
             else Inr (current_page_start_index, 0, out))"

subsection \<open>The page check (lines 356 to 379) and response\<close>

definition page_beyond_results_text :: "int \<Rightarrow> int \<Rightarrow> int \<Rightarrow> int \<Rightarrow> pystr" where
  "page_beyond_results_text requested_pageno expected start total_count =
     lit ''Bing returned page 1 instead of requested page '' @ str_int requested_pageno
     @ lit ''. Expected start offset: '' @ str_int expected
     @ lit '', but page shows start at '' @ str_int start
     @ lit ''. This might be because the requested page is beyond the total available results (''
     @ str_int total_count @ lit '').''"

definition page_mismatch_text :: "int \<Rightarrow> int \<Rightarrow> int \<Rightarrow> pystr" where
  "page_mismatch_text requested_pageno expected start =
     lit ''Page number mismatch detected: Requested page '' @ str_int requested_pageno
     @ lit '' (expected offset '' @ str_int expected
     @ lit ''), but the content seems to be from a page starting at offset '' @ str_int start
     @ lit ''.''"

definition check_page ::
  "int \<Rightarrow> int \<Rightarrow> int \<Rightarrow> result list \<Rightarrow> pystr list \<Rightarrow> error + (result list \<times> pystr list)" where
  "check_page requested_pageno current_page_start_index total_results_count results out =
     (let expected_page_start_offset = page_offset requested_pageno in
      if requested_pageno > 1 \<and> current_page_start_index \<noteq> expected_page_start_offset then
        (if expected_page_start_offset > total_results_count \<and> total_results_count > 0
            \<and> current_page_start_index = 1 then
           (case logger_warning
                   (page_beyond_results_text requested_pageno expected_page_start_offset
                      current_page_start_index total_results_count) out of
              Inl e \<Rightarrow> Inl e
            | Inr out1 \<Rightarrow> Inr ([], out1))
         else
           (case logger_warning
                   (page_mismatch_text requested_pageno expected_page_start_offset
                      current_page_start_index) out of
              Inl e \<Rightarrow> Inl e
            | Inr out1 \<Rightarrow> Inr (results @ [Summary total_results_count], out1)))
      else Inr (results @ [Summary total_results_count], out))"

text \<open>
  \<open>response\<close> returns the list and the lines printed, or raises. The count is read from the
  tree as the loop left it.
\<close>

definition response :: "parser_env \<Rightarrow> pystr \<Rightarrow> int \<Rightarrow> error + (result list \<times> pystr list)" where
  "response env resp_text requested_pageno =
     (case html_fromstring env resp_text of
        Inl e \<Rightarrow> Inl e
      | Inr doc \<Rightarrow>
          (let result_elements = xpath_results doc in
           case extract_results result_elements ([], [], []) of
             Inl e \<Rightarrow> Inl e
           | Inr (rm, out, results) \<Rightarrow>
               if result_elements \<noteq> [] then
                 (case parse_count (int_max_str_digits env) (result_count_container_str rm doc) out of
                    Inl e \<Rightarrow> Inl e
                  | Inr (current_page_start_index, total_results_count, out1) \<Rightarrow>
                      check_page requested_pageno current_page_start_index total_results_count
                        results out1)
               else Inr (results @ [Summary 0], out)))"

text \<open>The entries of the returned list that are results, as opposed to the summary.\<close>

definition is_item :: "result \<Rightarrow> bool" where
  "is_item r = (case r of Item u t c \<Rightarrow> True | Summary n \<Rightarrow> False)"

section \<open>Concrete inputs\<close>

definition env0 :: env where
  "env0 = \<lparr>traits = \<lparr>languages = [], regions = [], all_locale = lit ''en-us''\<rparr>,
           time_time = 1762214400\<rparr>"

definition href1 :: pystr where
  "href1 = lit ''https://www.bing.com/ck/a?!&&p=abc&u=a1aHR0cHM6Ly9leGFtcGxlLmNvbS94&ntb=1''"

text \<open>
  A results page: a count banner and the list of result blocks. \<open>block_badge\<close> is a result
  whose paragraph is \<open><span class="algoSlug_icon">Web</span>Some real text\<close>;
  \<open>block_no_href\<close> has a heading anchor without \<open>href\<close>; \<open>block_tracking\<close> links
  through a tracking URL that has no \<open>u\<close> parameter.
\<close>

definition block_badge :: elem where
  "block_badge =
     Elem (lit ''li'') [(lit ''class'', lit ''b_algo'')] []
       [Elem (lit ''h2'') [] []
          [Elem (lit ''a'') [(lit ''href'', lit ''https://example.com/'')] (lit ''Example Domain'') [] []]
          [],
        Elem (lit ''p'') [] []
          [Elem (lit ''span'') [(lit ''class'', lit ''algoSlug_icon'')] (lit ''Web'') []
             (lit ''Some real text'')]
          []]
       []"

definition block_no_href :: elem where
  "block_no_href =
     Elem (lit ''li'') [(lit ''class'', lit ''b_algo'')] []
       [Elem (lit ''h2'') [] [] [Elem (lit ''a'') [] (lit ''No link'') [] []] [],
        Elem (lit ''p'') [] (lit ''Plain snippet'') [] []]
       []"

definition block_tracking :: elem where
  "block_tracking =
     Elem (lit ''li'') [(lit ''class'', lit ''b_algo'')] []
       [Elem (lit ''h2'') [] []
          [Elem (lit ''a'') [(lit ''href'', lit ''https://www.bing.com/ck/a?!&&p=%20&ntb=1'')]
             (lit ''Tracked'') [] []]
          []]
       []"

definition results_page :: "pystr \<Rightarrow> elem list \<Rightarrow> elem" where
  "results_page banner blocks =
     Elem (lit ''html'') [] []
       [Elem (lit ''body'') [] []
          [Elem (lit ''span'') [(lit ''class'', lit ''sb_count'')] banner [] [],
           Elem (lit ''ol'') [(lit ''id'', lit ''b_results'')] [] blocks []]
          []]
       []"

definition parsed_as :: "elem \<Rightarrow> parser_env" where
  "parsed_as doc = \<lparr>html_fromstring = (\<lambda>resp_text. Inr doc), int_max_str_digits = 4300\<rparr>"

definition page_15 :: elem where
  "page_15 = results_page (lit ''1-10 of 15 results'') [block_badge]"

definition tracking_page :: elem where
  "tracking_page = results_page (lit ''1-10 of 15 results'') [block_tracking]"

section \<open>Properties of the request builder\<close>

lemma lit_eq_iff [simp]: "lit a = lit b \<longleftrightarrow> a = b"
  by (simp add: lit_def inj_map_eq_map [OF inj_of_char])

lemma lit_merge:
  "lit a @ lit b = lit (a @ b)" "lit a @ lit b @ x = lit (a @ b) @ x"
  by (simp_all add: lit_def)

lemma lit_Nil [simp]: "lit [] = []"
  by (simp add: lit_def)

lemma set_bing_cookies_frame:
  assumes "set_bing_cookies params l m = Inr params1" and "k \<noteq> lit ''cookies''"
  shows "map_of params1 k = map_of params k"
  using assms
  by (auto simp: set_bing_cookies_def Let_def update_conv' split: if_splits option.splits pyval.splits)

lemma set_bing_cookies_error:
  assumes "set_bing_cookies params l m = Inl e"
  shows "\<exists>v. map_of params (lit ''cookies'') = Some v \<and> (\<forall>d. v \<noteq> PDict d)"
  using assms
  by (auto simp: set_bing_cookies_def Let_def update_conv' split: if_splits option.splits pyval.splits)

lemma time_range_filter_frame:
  assumes "k \<noteq> lit ''url''"
  shows "map_of (fst (time_range_filter env params)) k = map_of params k"
  using assms
  by (auto simp: time_range_filter_def unsupported_time_range_def append_url_def Let_def update_conv'
           split: if_splits option.splits pyval.splits sum.splits)

lemma time_range_filter_url:
  assumes "map_of params (lit ''url'') = Some (PStr u)"
  shows "\<exists>sfx. (sfx = [] \<or> (\<exists>v. sfx = filter_fragment v)) \<and>
           map_of (fst (time_range_filter env params)) (lit ''url'') = Some (PStr (u @ sfx))"
  using assms
  by (auto simp: time_range_filter_def unsupported_time_range_def append_url_def Let_def update_conv'
           split: if_splits option.splits pyval.splits sum.splits)

lemma set_default_headers_frame:
  "k \<noteq> lit ''headers'' \<Longrightarrow> map_of (set_default_headers params) k = map_of params k"
  by (simp add: set_default_headers_def update_conv')

lemma set_default_headers_present:
  "map_of params (lit ''headers'') = Some h \<Longrightarrow> set_default_headers params = params"
  by (simp add: set_default_headers_def)

lemma set_default_headers_absent:
  "map_of params (lit ''headers'') = None \<Longrightarrow>
     map_of (set_default_headers params) (lit ''headers'') = Some (PDict default_headers)"
  by (simp add: set_default_headers_def update_conv')

lemma time_range_filter_frame':
  assumes "time_range_filter env params = (p3, out, exc)" "k \<noteq> lit ''url''"
  shows "map_of p3 k = map_of params k"
  using time_range_filter_frame [OF assms(2), of env params] assms(1) by simp

lemma request_final:
  "fst (request env query params) = params
   \<or> (\<exists>p1 l m. set_bing_cookies params l m = Inr p1 \<and>
        (fst (request env query params) = p1
         \<or> (\<exists>enc p3 out exc.
              time_range_filter env (AList.update (lit ''url'') (PStr (base_url @ lit ''?'' @ enc)) p1)
                = (p3, out, exc)
              \<and> (fst (request env query params) = p3
                  \<or> fst (request env query params) = set_default_headers p3))))"
  apply (simp add: request_def Let_def split: sum.splits pyval.splits prod.splits option.splits)
  apply (intro allI impI conjI)
       apply blast+
  done

lemma request_frame:
  assumes "k \<noteq> lit ''url''" "k \<noteq> lit ''headers''" "k \<noteq> lit ''cookies''"
  shows "map_of (fst (request env query params)) k = map_of params k"
  using request_final [of env query params] assms
  by (auto simp: update_conv' set_default_headers_frame
           dest!: time_range_filter_frame' [where k = k] set_bing_cookies_frame [where k = k])

lemma request_headers_kept:
  assumes "map_of params (lit ''headers'') = Some h"
  shows "map_of (fst (request env query params)) (lit ''headers'') = Some h"
  using request_final [of env query params] assms
  by (auto simp: update_conv' set_default_headers_def
           dest!: time_range_filter_frame' [where k = "lit ''headers''"] set_bing_cookies_frame [where k = "lit ''headers''"])

lemma utf8_encode_safe: "\<forall>c \<in> set s. always_safe c \<Longrightarrow> utf8_encode s = Inr s"
  by (induction s) (auto simp: utf8_char_def always_safe_def)

lemma quote_plus_safe: "\<forall>c \<in> set s. always_safe c \<Longrightarrow> quote_plus s = Inr s"
proof -
  assume a: "\<forall>c \<in> set s. always_safe c"
  then have "concat (map quote_byte s) = s"
    by (induction s) (auto simp: quote_byte_def)
  with a show ?thesis by (simp add: quote_plus_def utf8_encode_safe)
qed

lemma digits_safe: "\<forall>c \<in> set (digits n). always_safe c"
proof (induction n rule: digits.induct)
  case (1 n)
  show ?case
  proof (cases "n < 10")
    case True
    then show ?thesis by (subst digits.simps) (simp add: always_safe_def)
  next
    case False
    have "n mod 10 < 10" by simp
    then have "always_safe (48 + n mod 10)" unfolding always_safe_def by linarith
    with False 1 show ?thesis by (subst digits.simps) simp
  qed
qed

lemma str_int_safe: "\<forall>c \<in> set (str_int i). always_safe c"
  using digits_safe by (auto simp: str_int_def always_safe_def)

lemma lit_safe [simp]:
  "quote_plus (lit ''q'') = Inr (lit ''q'')" "quote_plus (lit ''pq'') = Inr (lit ''pq'')"
  "quote_plus (lit ''first'') = Inr (lit ''first'')" "quote_plus (lit ''FORM'') = Inr (lit ''FORM'')"
  "quote_plus (lit ''PERE'') = Inr (lit ''PERE'')"
  by (rule quote_plus_safe; simp add: lit_def always_safe_def)+

lemma quote_plus_PERE [simp]: "quote_plus (lit ''PERE'' @ str_int i) = Inr (lit ''PERE'' @ str_int i)"
  using str_int_safe [of i] by (intro quote_plus_safe) (auto simp: lit_def always_safe_def)

lemma quote_plus_str_int [simp]: "quote_plus (str_int i) = Inr (str_int i)"
  using str_int_safe by (intro quote_plus_safe)

lemma urlencode_query_params:
  assumes "quote_plus query = Inr qq"
  shows "urlencode (query_params query p) =
          Inr (lit ''q='' @ qq @ lit ''&pq='' @ qq @
               (if 2 \<le> p then lit ''&first='' @ str_int ((p - 1) * 10 + 1) @ lit ''&FORM=PERE'' @
                    (if p = 2 then [] else str_int (p - 2))
                else []))"
  using assms
  by (auto simp: urlencode_def query_params_def Let_def page_offset_def lit_merge)

lemma encodable_quote_plus: "encodable s \<Longrightarrow> \<exists>q. quote_plus s = Inr q"
proof -
  assume "encodable s"
  then have "\<exists>bs. utf8_encode s = Inr bs"
  proof (induction s)
    case Nil then show ?case by simp
  next
    case (Cons c cs)
    then have "utf8_char c \<noteq> None" by (auto simp: encodable_def utf8_char_def)
    with Cons show ?case by (auto simp: encodable_def)
  qed
  then show ?thesis by (auto simp: quote_plus_def)
qed


lemma table_get_typed:
  assumes "params_typed params"
  shows "\<exists>r. table_get tbl (dict_get params (lit ''searxng_locale'') (PStr (lit ''en-US''))) d = Inr r"
  using assms
  by (auto simp: params_typed_def table_get_def dict_get_def split: option.splits pyval.splits)

lemma set_bing_cookies_typed:
  assumes "params_typed params"
  shows "\<exists>p1. set_bing_cookies params l m = Inr p1"
  using assms
  by (auto simp: params_typed_def set_bing_cookies_def Let_def update_conv' split: option.splits pyval.splits)

lemma request_url:
  assumes typed: "params_typed params"
      and pg: "dict_get params (lit ''pageno'') (PInt 1) = PInt p"
      and enc: "urlencode (query_params query p) = Inr encoded"
  shows "\<exists>sfx. (sfx = [] \<or> (\<exists>v. sfx = filter_fragment v)) \<and>
           map_of (fst (request env query params)) (lit ''url'') =
             Some (PStr (base_url @ lit ''?'' @ encoded @ sfx))"
proof -
  let ?loc = "dict_get params (lit ''searxng_locale'') (PStr (lit ''en-US''))"
  obtain m where m: "get_region (traits env) ?loc (all_locale (traits env)) = Inr m"
    using table_get_typed [OF typed] unfolding get_region_def by blast
  obtain l where l: "get_language (traits env) ?loc m = Inr l"
    using table_get_typed [OF typed] unfolding get_language_def by blast
  obtain p1 where p1: "set_bing_cookies params l m = Inr p1"
    using set_bing_cookies_typed [OF typed] by blast
  have pg1: "dict_get p1 (lit ''pageno'') (PInt 1) = PInt p"
    using pg set_bing_cookies_frame [OF p1, of "lit ''pageno''"] by (simp add: dict_get_def)
  let ?p2 = "AList.update (lit ''url'') (PStr (base_url @ lit ''?'' @ encoded)) p1"
  have "map_of ?p2 (lit ''url'') = Some (PStr (base_url @ lit ''?'' @ encoded))"
    by (simp add: update_conv')
  from time_range_filter_url [OF this, of env]
  obtain sfx where sfx: "sfx = [] \<or> (\<exists>v. sfx = filter_fragment v)"
    and u3: "map_of (fst (time_range_filter env ?p2)) (lit ''url'')
              = Some (PStr ((base_url @ lit ''?'' @ encoded) @ sfx))"
    by blast
  obtain p3 out exc where t: "time_range_filter env ?p2 = (p3, out, exc)"
    by (cases "time_range_filter env ?p2") auto
  have "fst (request env query params) = p3 \<or> fst (request env query params) = set_default_headers p3"
    using m l p1 pg1 enc t by (cases exc) (simp_all add: request_def)
  then have "map_of (fst (request env query params)) (lit ''url'') = map_of p3 (lit ''url'')"
    by (auto simp: set_default_headers_frame)
  with u3 t sfx show ?thesis by auto
qed

text \<open>
  C1. For a page number \<open>p \<ge> 2\<close> the URL that \<open>request\<close> stores carries \<open>first\<close> with the
  value \<open>(p - 1) * 10 + 1\<close> and \<open>FORM\<close> with \<open>PERE\<close> for \<open>p = 2\<close> and \<open>PERE\<close> followed by
  the decimal rendering of \<open>p - 2\<close> for \<open>p > 2\<close>; for \<open>p = 1\<close> (and below) the dictionary
  that is encoded into the URL has neither key, and the URL holds \<open>q\<close> and \<open>pq\<close> only.
  The text after the pagination is the time-range fragment, when one is appended.
\<close>

theorem request_pagination:
  assumes typed: "params_typed params"
      and pg: "map_of params (lit ''pageno'') = Some (PInt p)"
      and q: "quote_plus query = Inr qq"
  shows "(\<exists>sfx. (sfx = [] \<or> (\<exists>v. sfx = filter_fragment v)) \<and>
            map_of (fst (request env query params)) (lit ''url'') =
              Some (PStr (base_url @ lit ''?q='' @ qq @ lit ''&pq='' @ qq @
                (if 2 \<le> p then lit ''&first='' @ str_int ((p - 1) * 10 + 1) @ lit ''&FORM=PERE'' @
                    (if p = 2 then [] else str_int (p - 2))
                 else []) @ sfx)))
       \<and> (2 \<le> p \<longrightarrow>
            map_of (query_params query p) (lit ''first'') = Some (QInt ((p - 1) * 10 + 1)) \<and>
            map_of (query_params query p) (lit ''FORM'') =
              Some (QStr (if p = 2 then lit ''PERE'' else lit ''PERE'' @ str_int (p - 2))))
       \<and> (p \<le> 1 \<longrightarrow>
            map_of (query_params query p) (lit ''first'') = None \<and>
            map_of (query_params query p) (lit ''FORM'') = None)"
proof (intro conjI)
  have "dict_get params (lit ''pageno'') (PInt 1) = PInt p"
    using pg by (simp add: dict_get_def)
  from request_url [OF typed this urlencode_query_params [OF q, of p], of env]
  show "\<exists>sfx. (sfx = [] \<or> (\<exists>v. sfx = filter_fragment v)) \<and>
            map_of (fst (request env query params)) (lit ''url'') =
              Some (PStr (base_url @ lit ''?q='' @ qq @ lit ''&pq='' @ qq @
                (if 2 \<le> p then lit ''&first='' @ str_int ((p - 1) * 10 + 1) @ lit ''&FORM=PERE'' @
                    (if p = 2 then [] else str_int (p - 2))
                 else []) @ sfx))"
    by (auto simp: lit_merge)
next
  show "2 \<le> p \<longrightarrow>
            map_of (query_params query p) (lit ''first'') = Some (QInt ((p - 1) * 10 + 1)) \<and>
            map_of (query_params query p) (lit ''FORM'') =
              Some (QStr (if p = 2 then lit ''PERE'' else lit ''PERE'' @ str_int (p - 2)))"
    by (auto simp: query_params_def Let_def update_conv' page_offset_def)
next
  show "p \<le> 1 \<longrightarrow>
            map_of (query_params query p) (lit ''first'') = None \<and>
            map_of (query_params query p) (lit ''FORM'') = None"
    by (auto simp: query_params_def Let_def)
qed

lemma digits_small: "n < 10 \<Longrightarrow> digits n = [48 + n]"
  by (subst digits.simps) simp

lemma digits_step: "10 \<le> n \<Longrightarrow> digits n = digits (n div 10) @ [48 + n mod 10]"
  by (subst digits.simps) simp

theorem request_pagination_witness:
  "params_typed [(lit ''pageno'', PInt 3)]
   \<and> map_of [(lit ''pageno'', PInt 3)] (lit ''pageno'') = Some (PInt 3)
   \<and> quote_plus (lit ''a b'') = Inr (lit ''a+b'')
   \<and> (\<exists>sfx. (sfx = [] \<or> (\<exists>v. sfx = filter_fragment v)) \<and>
         map_of (fst (request env0 (lit ''a b'') [(lit ''pageno'', PInt 3)])) (lit ''url'') =
           Some (PStr (lit ''https://www.bing.com/search?q=a+b&pq=a+b&first=21&FORM=PERE1'' @ sfx)))
   \<and> map_of (query_params (lit ''a b'') 3) (lit ''first'') = Some (QInt 21)
   \<and> map_of (query_params (lit ''a b'') 3) (lit ''FORM'') = Some (QStr (lit ''PERE1''))
   \<and> params_typed [(lit ''pageno'', PInt 1)]
   \<and> map_of [(lit ''pageno'', PInt 1)] (lit ''pageno'') = Some (PInt 1)
   \<and> (\<exists>sfx. (sfx = [] \<or> (\<exists>v. sfx = filter_fragment v)) \<and>
         map_of (fst (request env0 (lit ''a b'') [(lit ''pageno'', PInt 1)])) (lit ''url'') =
           Some (PStr (lit ''https://www.bing.com/search?q=a+b&pq=a+b'' @ sfx)))
   \<and> map_of (query_params (lit ''a b'') 1) (lit ''first'') = None
   \<and> map_of (query_params (lit ''a b'') 1) (lit ''FORM'') = None"
proof -
  have t3: "params_typed [(lit ''pageno'', PInt 3)]"
    and t1: "params_typed [(lit ''pageno'', PInt 1)]"
    by (simp_all add: params_typed_def)
  have m3: "map_of [(lit ''pageno'', PInt 3)] (lit ''pageno'') = Some (PInt 3)"
    and m1: "map_of [(lit ''pageno'', PInt 1)] (lit ''pageno'') = Some (PInt 1)"
    by simp_all
  have q: "quote_plus (lit ''a b'') = Inr (lit ''a+b'')"
    by (simp add: quote_plus_def lit_def utf8_char_def quote_byte_def always_safe_def)
  have d: "str_int 21 = lit ''21''" "str_int 1 = lit ''1''"
    by (simp_all add: str_int_def digits_small digits_step lit_def)
  show ?thesis
    using request_pagination [OF t3 m3 q, of env0] request_pagination [OF t1 m1 q, of env0] t3 t1 q
    by (simp add: d lit_merge base_url_def)
qed

lemma request_normal:
  assumes "snd (snd (request env query params)) = None"
  obtains m l p1 enc p3 out where
    "set_bing_cookies params l m = Inr p1"
    "time_range_filter env (AList.update (lit ''url'') (PStr (base_url @ lit ''?'' @ enc)) p1)
       = (p3, out, None)"
    "request env query params = (set_default_headers p3, out, None)"
  using assms
  by (auto simp: request_def Let_def split: sum.splits pyval.splits prod.splits option.splits)

text \<open>
  C9. Frame property of \<open>request\<close>, at every exit (return or raise): a \<open>headers\<close> entry
  that the caller supplied is left as it was; the default headers are stored when there
  was no \<open>headers\<close> entry and the call returns; every key other than \<open>url\<close>, \<open>headers\<close>
  and \<open>cookies\<close> keeps its value.
\<close>

theorem request_frame_headers:
  "(\<forall>h. map_of params (lit ''headers'') = Some h \<longrightarrow>
        map_of (fst (request env query params)) (lit ''headers'') = Some h)
   \<and> (map_of params (lit ''headers'') = None \<longrightarrow> snd (snd (request env query params)) = None \<longrightarrow>
        map_of (fst (request env query params)) (lit ''headers'') = Some (PDict default_headers))
   \<and> (\<forall>k. k \<noteq> lit ''url'' \<and> k \<noteq> lit ''headers'' \<and> k \<noteq> lit ''cookies'' \<longrightarrow>
        map_of (fst (request env query params)) k = map_of params k)"
proof (intro conjI allI impI)
  fix h assume "map_of params (lit ''headers'') = Some h"
  then show "map_of (fst (request env query params)) (lit ''headers'') = Some h"
    by (rule request_headers_kept)
next
  assume a: "map_of params (lit ''headers'') = None" and r: "snd (snd (request env query params)) = None"
  from r obtain m l p1 enc p3 out where
    c: "set_bing_cookies params l m = Inr p1"
    and t: "time_range_filter env (AList.update (lit ''url'') (PStr (base_url @ lit ''?'' @ enc)) p1)
       = (p3, out, None)"
    and q: "request env query params = (set_default_headers p3, out, None)"
    by (rule request_normal)
  have "map_of p1 (lit ''headers'') = None"
    using set_bing_cookies_frame [OF c, of "lit ''headers''"] a by simp
  then have "map_of p3 (lit ''headers'') = None"
    using time_range_filter_frame' [OF t, of "lit ''headers''"] by (simp add: update_conv')
  then show "map_of (fst (request env query params)) (lit ''headers'') = Some (PDict default_headers)"
    by (simp add: q set_default_headers_absent)
next
  fix k assume "k \<noteq> lit ''url'' \<and> k \<noteq> lit ''headers'' \<and> k \<noteq> lit ''cookies''"
  then show "map_of (fst (request env query params)) k = map_of params k"
    by (simp add: request_frame)
qed


theorem request_frame_headers_witness:
  "map_of [(lit ''pageno'', PInt 2), (lit ''headers'', PDict [(lit ''X-Test'', lit ''1'')]),
           (lit ''time_range'', PStr (lit ''week''))] (lit ''headers'')
     = Some (PDict [(lit ''X-Test'', lit ''1'')])
   \<and> map_of (fst (request env0 (lit ''a b'')
        [(lit ''pageno'', PInt 2), (lit ''headers'', PDict [(lit ''X-Test'', lit ''1'')]),
         (lit ''time_range'', PStr (lit ''week''))])) (lit ''headers'')
     = Some (PDict [(lit ''X-Test'', lit ''1'')])
   \<and> map_of (fst (request env0 (lit ''a b'')
        [(lit ''pageno'', PInt 2), (lit ''headers'', PDict [(lit ''X-Test'', lit ''1'')]),
         (lit ''time_range'', PStr (lit ''week''))])) (lit ''time_range'')
     = Some (PStr (lit ''week''))
   \<and> map_of [(lit ''pageno'', PInt 2)] (lit ''headers'') = None
   \<and> snd (snd (request env0 (lit ''a b'') [(lit ''pageno'', PInt 2)])) = None
   \<and> map_of (fst (request env0 (lit ''a b'') [(lit ''pageno'', PInt 2)])) (lit ''headers'')
     = Some (PDict default_headers)"
proof -
  have r: "snd (snd (request env0 (lit ''a b'') [(lit ''pageno'', PInt 2)])) = None"
    by (simp add: request_def dict_get_def get_region_def get_language_def table_get_def
      set_bing_cookies_def Let_def update_conv' urlencode_def query_params_def
      time_range_filter_def env0_def
      quote_plus_def utf8_char_def quote_byte_def always_safe_def lit_def page_offset_def
      str_int_def digits_small digits_step split: sum.splits)
  show ?thesis
    using request_frame_headers [of "[(lit ''pageno'', PInt 2), (lit ''headers'', PDict [(lit ''X-Test'', lit ''1'')]),
           (lit ''time_range'', PStr (lit ''week''))]" env0 "lit ''a b''"]
      request_frame_headers [of "[(lit ''pageno'', PInt 2)]" env0 "lit ''a b''"] r
    by simp
qed

lemma percent_noargs_safe: "37 \<notin> set s \<Longrightarrow> percent_noargs s = Inr s"
  by (induction s rule: percent_noargs.induct) auto

lemma str_int_no_percent: "37 \<notin> set (str_int i)"
  using str_int_safe [of i] by (auto simp: always_safe_def)

lemma logger_warning_plain:
  "37 \<notin> set msg \<Longrightarrow> logger_warning msg out = Inr (out @ [lit ''WARNING: '' @ msg])"
proof -
  assume "37 \<notin> set msg"
  then have "37 \<notin> set (lit ''WARNING: '' @ msg)" by (simp add: lit_def)
  then show ?thesis by (simp add: logger_warning_def logger_print_def percent_noargs_safe)
qed

text \<open>
  C7. The unsupported time range \<open>100%\<close>: the warning text ends in \<open>%\<close>, the \<open>%\<close>
  operator of \<open>Logger.warning\<close> raises, no line is printed and \<open>request\<close> raises.
\<close>

theorem request_unsupported_time_range_raises:
  "snd (request env (lit ''news'') [(lit ''time_range'', PStr (lit ''100%''))]) = ([], Some FormatError)"
  by (simp add: request_def dict_get_def get_region_def get_language_def table_get_def
      set_bing_cookies_def Let_def update_conv' urlencode_def query_params_def
      time_range_filter_def time_ranges_map_def append_url_def unsupported_time_range_def
      logger_warning_def logger_print_def lit_def
      quote_plus_def utf8_char_def quote_byte_def always_safe_def split: sum.splits)

lemma int_trunc_floor: "0 \<le> x \<Longrightarrow> int_trunc x = \<lfloor>x\<rfloor>"
  by (simp add: int_trunc_def)

lemma time_ranges_map_codes:
  "map_of (time_ranges_map d) (lit ''day'') = Some (lit ''1'')"
  "map_of (time_ranges_map d) (lit ''week'') = Some (lit ''2'')"
  "map_of (time_ranges_map d) (lit ''month'') = Some (lit ''3'')"
  "map_of (time_ranges_map d) (lit ''year'')
     = Some (lit ''5_'' @ str_int (d - 365) @ lit ''_'' @ str_int d)"
  "s \<noteq> lit ''day'' \<Longrightarrow> s \<noteq> lit ''week'' \<Longrightarrow> s \<noteq> lit ''month'' \<Longrightarrow> s \<noteq> lit ''year''
     \<Longrightarrow> map_of (time_ranges_map d) s = None"
  by (simp_all add: time_ranges_map_def)

lemma time_ranges_map_key: "map_of (time_ranges_map d) s = Some code \<Longrightarrow> s \<noteq> []"
  by (auto simp: time_ranges_map_def lit_def split: if_splits)

lemma time_range_filter_supported:
  assumes "map_of params (lit ''time_range'') = Some (PStr s)"
      and "map_of (time_ranges_map (int_trunc (time_time env / 86400))) s = Some code"
      and "map_of params (lit ''url'') = Some (PStr u)"
  shows "time_range_filter env params =
           (AList.update (lit ''url'') (PStr (u @ filter_fragment code)) params, [], None)"
  using assms time_ranges_map_key [OF assms(2)]
  by (simp add: time_range_filter_def dict_get_def Let_def append_url_def)

lemma time_range_filter_unsupported:
  assumes "map_of params (lit ''time_range'') = Some (PStr s)"
      and "s \<noteq> []"
      and "map_of (time_ranges_map (int_trunc (time_time env / 86400))) s = None"
      and "37 \<notin> set s"
  shows "time_range_filter env params =
           (params, [lit ''WARNING: Unsupported time_range specified: '' @ s], None)"
proof -
  have "37 \<notin> set (lit ''Unsupported time_range specified: '' @ s)"
    using assms(4) by (simp add: lit_def)
  from logger_warning_plain [OF this, of "[]"] show ?thesis
    using assms(1-3)
    by (simp add: time_range_filter_def dict_get_def Let_def unsupported_time_range_def lit_merge)
qed

lemma time_range_filter_absent:
  assumes "map_of params (lit ''time_range'') = None"
  shows "time_range_filter env params = (params, [], None)"
  using assms by (simp add: time_range_filter_def dict_get_def)

lemma request_returns:
  assumes typed: "params_typed params"
      and pg: "dict_get params (lit ''pageno'') (PInt 1) = PInt p"
      and enc: "urlencode (query_params query p) = Inr encoded"
  shows "\<exists>p1. (\<forall>k. k \<noteq> lit ''cookies'' \<longrightarrow> map_of p1 k = map_of params k) \<and>
           request env query params =
             (case time_range_filter env
                     (AList.update (lit ''url'') (PStr (base_url @ lit ''?'' @ encoded)) p1) of
                (p3, out, Some e) \<Rightarrow> (p3, out, Some e)
              | (p3, out, None) \<Rightarrow> (set_default_headers p3, out, None))"
proof -
  let ?loc = "dict_get params (lit ''searxng_locale'') (PStr (lit ''en-US''))"
  obtain m where m: "get_region (traits env) ?loc (all_locale (traits env)) = Inr m"
    using table_get_typed [OF typed] unfolding get_region_def by blast
  obtain l where l: "get_language (traits env) ?loc m = Inr l"
    using table_get_typed [OF typed] unfolding get_language_def by blast
  obtain p1 where p1: "set_bing_cookies params l m = Inr p1"
    using set_bing_cookies_typed [OF typed] by blast
  have fr: "\<forall>k. k \<noteq> lit ''cookies'' \<longrightarrow> map_of p1 k = map_of params k"
    using set_bing_cookies_frame [OF p1] by blast
  have pg1: "dict_get p1 (lit ''pageno'') (PInt 1) = PInt p"
    using pg fr by (simp add: dict_get_def)
  have "request env query params =
             (case time_range_filter env
                     (AList.update (lit ''url'') (PStr (base_url @ lit ''?'' @ encoded)) p1) of
                (p3, out, Some e) \<Rightarrow> (p3, out, Some e)
              | (p3, out, None) \<Rightarrow> (set_default_headers p3, out, None))"
    using m l p1 pg1 enc by (simp add: request_def)
  with fr show ?thesis by blast
qed

text \<open>
  What the time-range block does otherwise: a supported time range appends its one fragment and
  nothing is printed or raised; an unsupported value without \<open>%\<close> appends nothing, prints
  the warning and returns.
\<close>

lemma request_time_range_supported:
  assumes typed: "params_typed params"
      and pg: "dict_get params (lit ''pageno'') (PInt 1) = PInt p"
      and enc: "urlencode (query_params query p) = Inr encoded"
      and tr: "map_of params (lit ''time_range'') = Some (PStr s)"
      and code: "map_of (time_ranges_map (int_trunc (time_time env / 86400))) s = Some code"
  shows "\<exists>p3. request env query params = (p3, [], None) \<and>
           map_of p3 (lit ''url'')
             = Some (PStr (base_url @ lit ''?'' @ encoded @ filter_fragment code))"
proof -
  from request_returns [OF typed pg enc, of env] obtain p1 where
    fr: "\<forall>k. k \<noteq> lit ''cookies'' \<longrightarrow> map_of p1 k = map_of params k"
    and r: "request env query params =
             (case time_range_filter env
                     (AList.update (lit ''url'') (PStr (base_url @ lit ''?'' @ encoded)) p1) of
                (p3, out, Some e) \<Rightarrow> (p3, out, Some e)
              | (p3, out, None) \<Rightarrow> (set_default_headers p3, out, None))"
    by blast
  let ?p2 = "AList.update (lit ''url'') (PStr (base_url @ lit ''?'' @ encoded)) p1"
  have t2: "map_of ?p2 (lit ''time_range'') = Some (PStr s)"
    using fr tr by (simp add: update_conv')
  have u2: "map_of ?p2 (lit ''url'') = Some (PStr (base_url @ lit ''?'' @ encoded))"
    by (simp add: update_conv')
  show ?thesis
    by (simp add: r time_range_filter_supported [OF t2 code u2] set_default_headers_frame
          update_conv')
qed

lemma request_time_range_unsupported:
  assumes typed: "params_typed params"
      and pg: "dict_get params (lit ''pageno'') (PInt 1) = PInt p"
      and enc: "urlencode (query_params query p) = Inr encoded"
      and tr: "map_of params (lit ''time_range'') = Some (PStr s)"
      and ne: "s \<noteq> []"
      and un: "map_of (time_ranges_map (int_trunc (time_time env / 86400))) s = None"
      and plain: "37 \<notin> set s"
  shows "\<exists>p3. request env query params
                = (p3, [lit ''WARNING: Unsupported time_range specified: '' @ s], None) \<and>
           map_of p3 (lit ''url'') = Some (PStr (base_url @ lit ''?'' @ encoded))"
proof -
  from request_returns [OF typed pg enc, of env] obtain p1 where
    fr: "\<forall>k. k \<noteq> lit ''cookies'' \<longrightarrow> map_of p1 k = map_of params k"
    and r: "request env query params =
             (case time_range_filter env
                     (AList.update (lit ''url'') (PStr (base_url @ lit ''?'' @ encoded)) p1) of
                (p3, out, Some e) \<Rightarrow> (p3, out, Some e)
              | (p3, out, None) \<Rightarrow> (set_default_headers p3, out, None))"
    by blast
  let ?p2 = "AList.update (lit ''url'') (PStr (base_url @ lit ''?'' @ encoded)) p1"
  have t2: "map_of ?p2 (lit ''time_range'') = Some (PStr s)"
    using fr tr by (simp add: update_conv')
  show ?thesis
    by (simp add: r time_range_filter_unsupported [OF t2 ne un plain] set_default_headers_frame
          update_conv')
qed

section \<open>Properties of the redirect decoder\<close>

lemma utf8_char_bytes: "utf8_char c = Some cs \<Longrightarrow> \<forall>b \<in> set cs. b < 256"
  by (auto simp: utf8_char_def split: if_splits)

lemma utf8_encode_bytes: "utf8_encode d = Inr bs \<Longrightarrow> \<forall>b \<in> set bs. b < 256"
proof (induction d arbitrary: bs)
  case Nil then show ?case by simp
next
  case (Cons c cs)
  then obtain b1 b2 where c: "utf8_char c = Some b1" and r: "utf8_encode cs = Inr b2"
    and bs: "bs = b1 @ b2"
    by (auto split: option.splits sum.splits simp: map_sum_def)
  show ?case using utf8_char_bytes [OF c] Cons.IH [OF r] by (auto simp: bs)
qed

lemma split64_3: "(c::nat) div 4096 * 4096 + c div 64 mod 64 * 64 + c mod 64 = c"
proof -
  have a: "c div 4096 = c div 64 div 64" by (simp add: div_mult2_eq [symmetric])
  have b: "c div 64 * 64 + c mod 64 = c" by simp
  have d: "c div 64 div 64 * 64 + c div 64 mod 64 = c div 64" by simp
  show ?thesis using a b d by linarith
qed
lemma split64_4: "(c::nat) div 262144 * 262144 + c div 4096 mod 64 * 4096 + c div 64 mod 64 * 64 + c mod 64 = c"
proof -
  have a: "c div 262144 = c div 4096 div 64" by (simp add: div_mult2_eq [symmetric])
  have d: "c div 4096 div 64 * 64 + c div 4096 mod 64 = c div 4096" by simp
  show ?thesis using a d split64_3 [of c] by linarith
qed
lemma utf8_e0: "(c::nat) div 4096 = 0 \<Longrightarrow> 2048 \<le> c \<Longrightarrow> 32 \<le> c div 64 mod 64"
  using split64_3 [of c] mod_less_divisor [of 64 c] by linarith
lemma utf8_ed: "(c::nat) div 4096 = 13 \<Longrightarrow> \<not> (0xD800 \<le> c \<and> c \<le> 0xDFFF) \<Longrightarrow> c div 64 mod 64 < 32"
  using split64_3 [of c] mod_less_divisor [of 64 c] mod_less_divisor [of 64 "c div 64"] by linarith
lemma utf8_f0: "(c::nat) div 262144 = 0 \<Longrightarrow> 0x10000 \<le> c \<Longrightarrow> 16 \<le> c div 4096 mod 64"
  using split64_4 [of c] mod_less_divisor [of 64 c] mod_less_divisor [of 64 "c div 64"] by linarith
lemma utf8_f4: "(c::nat) div 262144 = 4 \<Longrightarrow> c < 0x110000 \<Longrightarrow> c div 4096 mod 64 < 16"
  using split64_4 [of c] by linarith

lemma utf8_decode_char:
  assumes "utf8_char c = Some cs"
  shows "utf8_decode pos (cs @ rest) = map_sum id ((#) c) (utf8_decode (pos + length cs) rest)"
proof -
  consider (a) "c < 0x80" | (b) "0x80 \<le> c" "c < 0x800" | (c) "0x800 \<le> c" "c < 0x10000" "\<not> (0xD800 \<le> c \<and> c \<le> 0xDFFF)"
    | (d) "0x10000 \<le> c" "c < 0x110000"
    using assms by (auto simp: utf8_char_def split: if_splits)
  then show ?thesis
  proof cases
    case a
    then have cs: "cs = [c]" using assms by (simp add: utf8_char_def)
    show ?thesis using a by (simp add: cs utf8_step_def)
  next
    case b
    then have cs: "cs = [0xC0 + c div 64, 0x80 + c mod 64]"
      using assms by (simp add: utf8_char_def)
    have r: "2 \<le> c div 64" "c div 64 < 32" "c mod 64 < 64" using b by simp_all
    have v: "c div 64 * 64 + c mod 64 = c" by simp
    have s: "utf8_step (192 + c div 64) ((128 + c mod 64) # rest) = Decoded c 2"
      using r v by (simp add: utf8_step_def is_cont_def)
    show ?thesis by (simp add: cs s)
  next
    case c
    then have cs: "cs = [0xE0 + c div 4096, 0x80 + c div 64 mod 64, 0x80 + c mod 64]"
      using assms by (auto simp add: utf8_char_def split: if_splits)
    have r: "c div 4096 < 16" "c div 64 mod 64 < 64" "c mod 64 < 64" using c by simp_all
    have e0: "0 < c div 4096 \<or> \<not> c div 64 mod 64 < 32" using c utf8_e0 [of c] by linarith
    have ed: "c div 4096 = 13 \<longrightarrow> \<not> 32 \<le> c div 64 mod 64" using c utf8_ed [of c] by auto
    have v: "c div 4096 * 4096 + c div 64 mod 64 * 64 + c mod 64 = c" by (rule split64_3)
    have s: "utf8_step (224 + c div 4096) ((128 + c div 64 mod 64) # (128 + c mod 64) # rest) = Decoded c 3"
      using r v e0 ed by (simp add: utf8_step_def is_cont_def)
    have p: "pos + 3 = Suc (Suc (Suc pos))" by simp
    show ?thesis by (simp add: cs s p)
  next
    case d
    then have cs: "cs = [0xF0 + c div 262144, 0x80 + c div 4096 mod 64, 0x80 + c div 64 mod 64,
              0x80 + c mod 64]"
      using assms by (auto simp add: utf8_char_def split: if_splits)
    have r: "c div 262144 < 5" "c div 4096 mod 64 < 64" "c div 64 mod 64 < 64" "c mod 64 < 64" using d by simp_all
    have f0: "0 < c div 262144 \<or> \<not> c div 4096 mod 64 < 16" using d utf8_f0 [of c] by linarith
    have f4: "c div 262144 = 4 \<longrightarrow> \<not> 16 \<le> c div 4096 mod 64" using d utf8_f4 [of c] by auto
    have v: "c div 262144 * 262144 + c div 4096 mod 64 * 4096 + c div 64 mod 64 * 64 + c mod 64 = c"
      by (rule split64_4)
    have s: "utf8_step (240 + c div 262144)
               ((128 + c div 4096 mod 64) # (128 + c div 64 mod 64) # (128 + c mod 64) # rest) = Decoded c 4"
      using r v f0 f4 by (simp add: utf8_step_def is_cont_def)
    have p: "pos + 4 = Suc (Suc (Suc (Suc pos)))" by simp
    show ?thesis by (simp add: cs s p)
  qed
qed

lemma utf8_decode_encode: "utf8_encode d = Inr bs \<Longrightarrow> utf8_decode pos bs = Inr d"
proof (induction d arbitrary: bs pos)
  case Nil then show ?case by simp
next
  case (Cons c cs)
  then obtain b1 b2 where c: "utf8_char c = Some b1" and r: "utf8_encode cs = Inr b2" and bs: "bs = b1 @ b2"
    by (auto split: option.splits sum.splits simp: map_sum_def)
  show ?case using Cons.IH [OF r] by (simp add: bs utf8_decode_char [OF c])
qed

lemma b64_value_char: "v < 64 \<Longrightarrow> b64_value (b64_char v) = Some v"
  by (auto simp: b64_value_def b64_char_def)

lemma b64_char_not_pad: "b64_char v \<noteq> 61"
  by (auto simp: b64_char_def)

lemma b64_char_ascii: "b64_char v < 128"
  by (auto simp: b64_char_def)

lemma a2b_quad:
  assumes "v1 < 64" "v2 < 64" "v3 < 64" "v4 < 64"
  shows "a2b 0 l p n (b64_char v1 # b64_char v2 # b64_char v3 # b64_char v4 # cs) =
         map_sum id (\<lambda>bs. (v1 * 4 + v2 div 16) # (v2 mod 16 * 16 + v3 div 4) # (v3 mod 4 * 64 + v4) # bs)
           (a2b 0 0 0 (n + 3) cs)"
proof -
  have n: "Suc (Suc (Suc n)) = n + 3" by simp
  show ?thesis
    using assms
    by (simp add: b64_value_char b64_char_not_pad n sum.map_comp comp_def id_def)
qed

lemma byte_sextets:
  fixes a b c :: nat
  assumes "a < 256" "b < 256" "c < 256"
  shows "a div 4 < 64" "a mod 4 * 16 + b div 16 < 64" "b mod 16 * 4 + c div 64 < 64" "c mod 64 < 64"
        "a mod 4 * 16 < 64" "b mod 16 * 4 < 64"
proof -
  have "a mod 4 < 4" "b mod 16 < 16" "b div 16 < 16" "c div 64 < 4" using assms by simp_all
  then show "a mod 4 * 16 + b div 16 < 64" "b mod 16 * 4 + c div 64 < 64"
    "a mod 4 * 16 < 64" "b mod 16 * 4 < 64" by linarith+
  show "a div 4 < 64" "c mod 64 < 64" using assms by simp_all
qed

lemma sextets_bytes:
  fixes a b c :: nat
  assumes "b < 256" "c < 256"
  shows "a div 4 * 4 + (a mod 4 * 16 + b div 16) div 16 = a"
    "(a mod 4 * 16 + b div 16) mod 16 * 16 + (b mod 16 * 4 + c div 64) div 4 = b"
    "(b mod 16 * 4 + c div 64) mod 4 * 64 + c mod 64 = c"
proof -
  have bd: "b div 16 < 16" and cd: "c div 64 < 4" using assms by simp_all
  have 1: "(a mod 4 * 16 + b div 16) div 16 = a mod 4" using bd by simp
  have 2: "(a mod 4 * 16 + b div 16) mod 16 = b div 16" using bd by simp
  have 3: "(b mod 16 * 4 + c div 64) div 4 = b mod 16" using cd by simp
  have 4: "(b mod 16 * 4 + c div 64) mod 4 = c div 64" using cd by simp
  show "a div 4 * 4 + (a mod 4 * 16 + b div 16) div 16 = a" by (simp add: 1)
  show "(a mod 4 * 16 + b div 16) mod 16 * 16 + (b mod 16 * 4 + c div 64) div 4 = b"
    by (simp only: 2 3) simp
  show "(b mod 16 * 4 + c div 64) mod 4 * 64 + c mod 64 = c" by (simp only: 4) simp
qed

lemma a2b_pair:
  assumes "v1 < 64" "v2 < 64"
  shows "a2b 0 l p n [b64_char v1, b64_char v2, 61, 61] = Inr [v1 * 4 + v2 div 16]"
  using assms by (simp add: b64_value_char b64_char_not_pad)

lemma a2b_triple:
  assumes "v1 < 64" "v2 < 64" "v3 < 64"
  shows "a2b 0 l p n [b64_char v1, b64_char v2, b64_char v3, 61] =
           Inr [v1 * 4 + v2 div 16, v2 mod 16 * 16 + v3 div 4]"
  using assms by (simp add: b64_value_char b64_char_not_pad)

lemma a2b_encode:
  assumes "\<forall>b \<in> set bs. b < 256"
  shows "a2b 0 0 0 n (urlsafe_b64encode bs) = Inr bs"
  using assms
proof (induction bs arbitrary: n rule: urlsafe_b64encode.induct)
  case 1
  then show ?case by simp
next
  case (2 a)
  then have a: "a < 256" by simp
  have z: "(0::nat) < 256" by simp
  have "a2b 0 0 0 n [b64_char (a div 4), b64_char (a mod 4 * 16), 61, 61]
          = Inr [a div 4 * 4 + (a mod 4 * 16) div 16]"
    using byte_sextets(1,5) [OF a a a] by (rule a2b_pair)
  also have "a div 4 * 4 + (a mod 4 * 16) div 16 = a"
    using sextets_bytes(1) [OF z z, of a] by simp
  finally show ?case by (simp only: urlsafe_b64encode.simps)
next
  case (3 a b)
  then have ab: "a < 256" "b < 256" by simp_all
  have z: "(0::nat) < 256" by simp
  have "a2b 0 0 0 n [b64_char (a div 4), b64_char (a mod 4 * 16 + b div 16), b64_char (b mod 16 * 4), 61]
          = Inr [a div 4 * 4 + (a mod 4 * 16 + b div 16) div 16,
                 (a mod 4 * 16 + b div 16) mod 16 * 16 + (b mod 16 * 4) div 4]"
    using byte_sextets(1,2,6) [OF ab z] by (rule a2b_triple)
  also have "a div 4 * 4 + (a mod 4 * 16 + b div 16) div 16 = a"
    by (rule sextets_bytes(1) [OF ab(2) z])
  also have "(a mod 4 * 16 + b div 16) mod 16 * 16 + (b mod 16 * 4) div 4 = b"
    using sextets_bytes(2) [OF ab(2) z, of a] by simp
  finally show ?case by (simp only: urlsafe_b64encode.simps)
next
  case (4 a b c bs)
  then have abc: "a < 256" "b < 256" "c < 256" and rest: "\<forall>b \<in> set bs. b < 256" by simp_all
  have "a2b 0 0 0 n (urlsafe_b64encode (a # b # c # bs)) =
        map_sum id (\<lambda>bs. (a div 4 * 4 + (a mod 4 * 16 + b div 16) div 16)
             # ((a mod 4 * 16 + b div 16) mod 16 * 16 + (b mod 16 * 4 + c div 64) div 4)
             # ((b mod 16 * 4 + c div 64) mod 4 * 64 + c mod 64) # bs)
           (a2b 0 0 0 (n + 3) (urlsafe_b64encode bs))"
    using a2b_quad [OF byte_sextets(1,2,3,4) [OF abc]] by (simp del: a2b.simps)
  also have "\<dots> = map_sum id (\<lambda>bs. a # b # c # bs) (Inr bs)"
    by (simp only: sextets_bytes [OF abc(2,3)] "4.IH" [OF rest])
  finally show ?case by simp
qed

lemma urlsafe_b64encode_ascii: "\<forall>c \<in> set (urlsafe_b64encode bs). c < 128"
  by (induction bs rule: urlsafe_b64encode.induct) (auto simp: b64_char_ascii)

lemma urlsafe_b64decode_encode:
  assumes "\<forall>b \<in> set bs. b < 256"
  shows "urlsafe_b64decode (urlsafe_b64encode bs) = Inr bs"
  using urlsafe_b64encode_ascii [of bs] a2b_encode [OF assms]
  by (auto simp: urlsafe_b64decode_def)

lemma repad:
  "unpadded (urlsafe_b64encode bs)
   @ replicate ((4 - length (unpadded (urlsafe_b64encode bs)) mod 4) mod 4) 61
   = urlsafe_b64encode bs"
proof (induction bs rule: urlsafe_b64encode.induct)
  case 1
  show ?case by (simp add: unpadded_def)
next
  case (2 a)
  have "replicate 2 (61::nat) = [61, 61]" by (simp add: numeral_2_eq_2)
  then show ?case by (simp add: unpadded_def b64_char_not_pad)
next
  case (3 a b)
  show ?case by (simp add: unpadded_def b64_char_not_pad)
next
  case (4 a b c bs)
  have "Suc (Suc (Suc (Suc (length (unpadded (urlsafe_b64encode bs)))))) mod 4
          = length (unpadded (urlsafe_b64encode bs)) mod 4"
  proof -
    have "Suc (Suc (Suc (Suc (length (unpadded (urlsafe_b64encode bs))))))
            = length (unpadded (urlsafe_b64encode bs)) + 4" by simp
    then show ?thesis by (simp only: mod_add_self2)
  qed
  with 4 show ?case by (simp add: unpadded_def b64_char_not_pad)
qed

lemma length_urlsafe_b64encode: "length (urlsafe_b64encode bs) mod 4 = 0"
  by (induction bs rule: urlsafe_b64encode.induct) simp_all

lemma b64_decode_text_roundtrip:
  assumes d: "utf8_encode d = Inr bs"
      and enc: "enc = urlsafe_b64encode bs \<or> enc = unpadded (urlsafe_b64encode bs)"
  shows "b64_decode_text (enc @ replicate ((4 - length enc mod 4) mod 4) 61) = Inr d"
proof -
  have "enc @ replicate ((4 - length enc mod 4) mod 4) 61 = urlsafe_b64encode bs"
    using enc repad [of bs] length_urlsafe_b64encode [of bs] by auto
  then show ?thesis
    using urlsafe_b64decode_encode [OF utf8_encode_bytes [OF d]] utf8_decode_encode [OF d, of 0]
    by (simp add: b64_decode_text_def)
qed

lemma utf8_decode_replace_ascii: "\<forall>c \<in> set s. c < 128 \<Longrightarrow> utf8_decode_replace s = s"
  by (induction s) (simp_all add: utf8_step_def)

lemma unq_plain:
  "\<forall>c \<in> set s. c < 128 \<and> c \<noteq> 37 \<Longrightarrow> unq run s = utf8_decode_replace (run @ s)"
  by (induction run s rule: unq.induct) simp_all

lemma unquote_plain: "\<forall>c \<in> set s. 44 < c \<and> c < 128 \<Longrightarrow> unquote s = s"
proof -
  assume a: "\<forall>c \<in> set s. 44 < c \<and> c < 128"
  then have "\<forall>c \<in> set s. c < 128 \<and> c \<noteq> 37" by auto
  then have "unq [] s = utf8_decode_replace ([] @ s)" by (rule unq_plain)
  with a show ?thesis by (simp add: unquote_def utf8_decode_replace_ascii)
qed

lemma plus_to_space_plain: "\<forall>c \<in> set s. 44 < c \<and> c < 128 \<Longrightarrow> plus_to_space s = s"
  by (induction s) (auto simp: plus_to_space_def)

lemma split_on_none: "sep \<notin> set s \<Longrightarrow> split_on sep s = [s]"
  by (induction s) auto

lemma tracking_query_plain:
  assumes "\<forall>c \<in> set q. 44 < c \<and> c < 128"
  shows "tracking_query (tracking_prefix @ q) = q"
proof -
  have f: "filter (\<lambda>c. c \<noteq> 9 \<and> c \<noteq> 10 \<and> c \<noteq> 13) q = q"
    using assms by (induction q) auto
  have p: "filter (\<lambda>c. c \<noteq> 9 \<and> c \<noteq> 10 \<and> c \<noteq> 13) tracking_prefix = tracking_prefix"
    by (simp add: tracking_prefix_def lit_def)
  have t: "takeWhile (\<lambda>c. c \<noteq> 35) q = q"
    using assms by (induction q) auto
  show ?thesis by (simp add: tracking_query_def f p t)
qed

lemma synthetic_u:
  assumes "v \<noteq> []" "\<forall>c \<in> set v. 44 < c \<and> c < 128"
  shows "parse_qs_get (tracking_query (tracking_prefix @ lit ''u='' @ v)) (lit ''u'') = Some [v]"
proof -
  have q: "\<forall>c \<in> set (lit ''u='' @ v). 44 < c \<and> c < 128"
    using assms(2) by (simp add: lit_def)
  have "38 \<notin> set (lit ''u='' @ v)"
  proof
    assume "38 \<in> set (lit ''u='' @ v)"
    with q have "44 < (38::nat)" by blast
    then show False by simp
  qed
  then have s: "split_on 38 (lit ''u='' @ v) = [lit ''u='' @ v]" by (rule split_on_none)
  have u: "unquote (plus_to_space (lit ''u'')) = lit ''u''"
    by (simp add: plus_to_space_plain unquote_plain lit_def)
  have f: "parse_field (lit ''u='' @ v) = [(lit ''u'', v)]"
    using assms u
    by (simp add: parse_field_def Let_def plus_to_space_plain unquote_plain)
       (simp add: lit_def plus_to_space_plain unquote_plain)
  show ?thesis
    by (simp add: tracking_query_plain [OF q] parse_qs_get_def parse_qsl_def s f)
qed

lemma b64_char_plain: "44 < b64_char v \<and> b64_char v < 128"
  by (auto simp: b64_char_def)

lemma urlsafe_b64encode_plain: "\<forall>c \<in> set (urlsafe_b64encode bs). 44 < c \<and> c < 128"
  by (induction bs rule: urlsafe_b64encode.induct) (auto simp: b64_char_plain)

lemma decode_redirect_payload:
  assumes p: "startswith href tracking_prefix"
    and u: "parse_qs_get (tracking_query href) (lit ''u'') = Some (v # vs)"
    and d: "utf8_encode d = Inr bs"
    and v: "v = lit ''a1'' @ urlsafe_b64encode bs \<or> v = lit ''a1'' @ unpadded (urlsafe_b64encode bs)"
  shows "decode_redirect (Some href) out = Inr (Some d, out)"
proof -
  have ne: "href \<noteq> []" using p by (auto simp: startswith_def tracking_prefix_def lit_def)
  have "drop 2 v = urlsafe_b64encode bs \<or> drop 2 v = unpadded (urlsafe_b64encode bs)"
    using v by (auto simp: lit_def)
  from b64_decode_text_roundtrip [OF d this]
  show "decode_redirect (Some href) out = Inr (Some d, out)"
    using p u ne by (simp add: decode_redirect_def Let_def)
qed

lemma decode_redirect_synthetic:
  assumes d: "utf8_encode d = Inr bs"
    and e: "enc = urlsafe_b64encode bs \<or> enc = unpadded (urlsafe_b64encode bs)"
  shows "decode_redirect (Some (tracking_prefix @ lit ''u=a1'' @ enc)) out = Inr (Some d, out)"
proof -
  have plain: "\<forall>c \<in> set (lit ''a1'' @ enc). 44 < c \<and> c < 128"
    using e urlsafe_b64encode_plain [of bs] by (auto simp: lit_def unpadded_def)
  have ne: "lit ''a1'' @ enc \<noteq> []" by (simp add: lit_def)
  have u: "parse_qs_get (tracking_query (tracking_prefix @ lit ''u=a1'' @ enc)) (lit ''u'')
             = Some [lit ''a1'' @ enc]"
    using synthetic_u [OF ne plain] by (simp add: lit_def)
  have p: "startswith (tracking_prefix @ lit ''u=a1'' @ enc) tracking_prefix"
    by (simp add: startswith_def)
  show ?thesis
    by (rule decode_redirect_payload [OF p u d]) (use e in auto)
qed

text \<open>
  C5. Round trip of the redirect decoder. When the link begins with the tracking prefix and
  the first value of its \<open>u\<close> parameter is \<open>a1\<close> followed by the URL-safe base64
  encoding (with or without its padding) of the UTF-8 bytes of the text \<open>d\<close>, the block
  yields \<open>d\<close> and prints nothing; the synthetic link made of the prefix and
  \<open>u=a1<base64>\<close> is such a link, for every encodable \<open>d\<close>; and a link that does not
  begin with the tracking prefix is returned unchanged.
\<close>

theorem decode_redirect_roundtrip:
  "(startswith href tracking_prefix \<longrightarrow>
      parse_qs_get (tracking_query href) (lit ''u'') = Some (v # vs) \<longrightarrow>
      utf8_encode d = Inr bs \<longrightarrow>
      (v = lit ''a1'' @ urlsafe_b64encode bs \<or> v = lit ''a1'' @ unpadded (urlsafe_b64encode bs)) \<longrightarrow>
      decode_redirect (Some href) out = Inr (Some d, out))
   \<and> (utf8_encode d = Inr bs \<longrightarrow>
        decode_redirect (Some (tracking_prefix @ lit ''u=a1'' @ urlsafe_b64encode bs)) out
          = Inr (Some d, out)
      \<and> decode_redirect (Some (tracking_prefix @ lit ''u=a1'' @ unpadded (urlsafe_b64encode bs))) out
          = Inr (Some d, out))
   \<and> (\<not> startswith href tracking_prefix \<longrightarrow>
      decode_redirect (Some href) out = Inr (Some href, out))"
proof (intro conjI impI)
  assume "startswith href tracking_prefix"
    and "parse_qs_get (tracking_query href) (lit ''u'') = Some (v # vs)"
    and "utf8_encode d = Inr bs"
    and "v = lit ''a1'' @ urlsafe_b64encode bs \<or> v = lit ''a1'' @ unpadded (urlsafe_b64encode bs)"
  then show "decode_redirect (Some href) out = Inr (Some d, out)"
    by (rule decode_redirect_payload)
next
  assume d: "utf8_encode d = Inr bs"
  show "decode_redirect (Some (tracking_prefix @ lit ''u=a1'' @ urlsafe_b64encode bs)) out
          = Inr (Some d, out)"
    by (rule decode_redirect_synthetic [OF d]) simp
next
  assume d: "utf8_encode d = Inr bs"
  show "decode_redirect (Some (tracking_prefix @ lit ''u=a1'' @ unpadded (urlsafe_b64encode bs))) out
          = Inr (Some d, out)"
    by (rule decode_redirect_synthetic [OF d]) simp
next
  assume "\<not> startswith href tracking_prefix"
  then show "decode_redirect (Some href) out = Inr (Some href, out)"
    by (simp add: decode_redirect_def)
qed

lemma href1_prefix: "startswith href1 tracking_prefix"
  by (simp add: startswith_def tracking_prefix_def href1_def lit_def)

lemma href1_u: "parse_qs_get (tracking_query href1) (lit ''u'') = Some [lit ''a1aHR0cHM6Ly9leGFtcGxlLmNvbS94'']"
  by code_simp

lemma example_utf8: "utf8_encode (lit ''https://example.com/x'') = Inr (lit ''https://example.com/x'')"
  by code_simp

lemma href1_payload: "lit ''a1aHR0cHM6Ly9leGFtcGxlLmNvbS94'' = lit ''a1'' @ unpadded (urlsafe_b64encode (lit ''https://example.com/x''))"
  by code_simp

lemma example_not_tracking: "\<not> startswith (lit ''https://example.com/x'') tracking_prefix"
  by code_simp


theorem decode_redirect_roundtrip_witness:
  "startswith href1 tracking_prefix
   \<and> parse_qs_get (tracking_query href1) (lit ''u'') = Some [lit ''a1aHR0cHM6Ly9leGFtcGxlLmNvbS94'']
   \<and> utf8_encode (lit ''https://example.com/x'') = Inr (lit ''https://example.com/x'')
   \<and> lit ''a1aHR0cHM6Ly9leGFtcGxlLmNvbS94''
       = lit ''a1'' @ unpadded (urlsafe_b64encode (lit ''https://example.com/x''))
   \<and> decode_redirect (Some href1) [] = Inr (Some (lit ''https://example.com/x''), [])
   \<and> \<not> startswith (lit ''https://example.com/x'') tracking_prefix
   \<and> decode_redirect (Some (lit ''https://example.com/x'')) []
       = Inr (Some (lit ''https://example.com/x''), [])"
  using decode_redirect_roundtrip
          [of href1 "lit ''a1aHR0cHM6Ly9leGFtcGxlLmNvbS94''" "[]" "lit ''https://example.com/x''"
              "lit ''https://example.com/x''" "[]"]
        decode_redirect_roundtrip
          [of "lit ''https://example.com/x''" "[]" "[]" "[]" "[]" "[]"]
        href1_prefix href1_u example_utf8 href1_payload example_not_tracking
  by simp

text \<open>
  C6. Two tracking links with \<open>%20\<close> in them: one without a \<open>u\<close> parameter, one whose
  payload \<open>_w\<close> decodes to the byte \<open>0xff\<close>, which is no UTF-8. The message of the
  logger carries the link, the \<open>%\<close> operator raises on \<open>%20&\<close>, and the exception
  leaves the block: the link is not returned.
\<close>

theorem decode_redirect_raises:
  "decode_redirect (Some (lit ''https://www.bing.com/ck/a?!&&p=%20&ntb=1'')) [] = Inl FormatError
   \<and> decode_redirect (Some (lit ''https://www.bing.com/ck/a?!&&p=%20&u=a1_w'')) [] = Inl FormatError"
  by code_simp

text \<open>
  What the failure policy amounts to in the code: when the block returns, the link is either
  the supplied one (with at most one line printed) or the decoded payload.
\<close>

lemma decode_redirect_fallback:
  assumes "decode_redirect (Some href) out = Inr (Some url, out1)"
  shows "(url = href \<and> (out1 = out \<or> (\<exists>line. out1 = out @ [line])))
         \<or> (out1 = out \<and> startswith href tracking_prefix \<and>
             (\<exists>v vs. parse_qs_get (tracking_query href) (lit ''u'') = Some (v # vs) \<and>
                b64_decode_text (drop 2 v @ replicate ((4 - length (drop 2 v) mod 4) mod 4) 61) = Inr url))"
  using assms
  by (auto simp: decode_redirect_def Let_def logger_error_def logger_warning_def logger_print_def
      split: if_splits option.splits list.splits sum.splits)

section \<open>Properties of the response parser\<close>

lemma page_beyond_results_text_plain:
  "37 \<notin> set (page_beyond_results_text r e s t)"
  by (simp add: page_beyond_results_text_def str_int_no_percent) (simp add: lit_def)

lemma page_mismatch_text_plain:
  "37 \<notin> set (page_mismatch_text r e s)"
  by (simp add: page_mismatch_text_def str_int_no_percent) (simp add: lit_def)

lemma check_page_beyond:
  assumes "1 < requested_pageno" "start \<noteq> page_offset requested_pageno" "start = 1"
    "total_count < page_offset requested_pageno" "0 < total_count"
  shows "check_page requested_pageno start total_count results out =
           Inr ([], out @ [lit ''WARNING: '' @ page_beyond_results_text requested_pageno
                              (page_offset requested_pageno) start total_count])"
  using assms
  by (simp add: check_page_def Let_def logger_warning_plain [OF page_beyond_results_text_plain])

lemma check_page_mismatch:
  assumes "1 < requested_pageno" "start \<noteq> page_offset requested_pageno"
    "\<not> (start = 1 \<and> total_count < page_offset requested_pageno \<and> 0 < total_count)"
  shows "check_page requested_pageno start total_count results out =
           Inr (results @ [Summary total_count],
                out @ [lit ''WARNING: '' @ page_mismatch_text requested_pageno
                              (page_offset requested_pageno) start])"
  using assms
  by (auto simp add: check_page_def Let_def logger_warning_plain [OF page_mismatch_text_plain])

lemma check_page_expected:
  assumes "\<not> (1 < requested_pageno \<and> start \<noteq> page_offset requested_pageno)"
  shows "check_page requested_pageno start total_count results out =
           Inr (results @ [Summary total_count], out)"
  using assms by (auto simp add: check_page_def Let_def)

lemma response_checked:
  assumes "html_fromstring env resp_text = Inr doc"
      and "extract_results (xpath_results doc) ([], [], []) = Inr (rm, out, results)"
      and "xpath_results doc \<noteq> []"
      and "parse_count (int_max_str_digits env) (result_count_container_str rm doc) out
             = Inr (start, total_count, out1)"
  shows "response env resp_text requested_pageno =
           check_page requested_pageno start total_count results out1"
  using assms by (simp add: response_def Let_def)

text \<open>
  What the page check does once the loop has returned and the count text is read. When for a
  requested page above 1 the start index differs from the expected offset, equals 1, and the
  expected offset exceeds a positive total, \<open>response\<close> logs the warning and returns the
  empty list: every extracted item is dropped.
\<close>

lemma response_page_beyond_results:
  assumes "html_fromstring env resp_text = Inr doc"
      and "extract_results (xpath_results doc) ([], [], []) = Inr (rm, out, results)"
      and "xpath_results doc \<noteq> []"
      and "parse_count (int_max_str_digits env) (result_count_container_str rm doc) out
             = Inr (start, total_count, out1)"
      and "1 < requested_pageno"
      and "start \<noteq> page_offset requested_pageno"
      and "start = 1"
      and "total_count < page_offset requested_pageno"
      and "0 < total_count"
  shows "response env resp_text requested_pageno =
           Inr ([], out1 @ [lit ''WARNING: '' @ page_beyond_results_text requested_pageno
                               (page_offset requested_pageno) start total_count])"
  using response_checked [OF assms(1-4)] check_page_beyond [OF assms(5-9)] by simp

text \<open>
  On every other mismatch \<open>response\<close> logs the mismatch warning and returns every extracted
  item followed by the summary with the total; the check itself cannot raise, its messages
  hold integers only.
\<close>

lemma response_page_mismatch:
  assumes "html_fromstring env resp_text = Inr doc"
      and "extract_results (xpath_results doc) ([], [], []) = Inr (rm, out, results)"
      and "xpath_results doc \<noteq> []"
      and "parse_count (int_max_str_digits env) (result_count_container_str rm doc) out
             = Inr (start, total_count, out1)"
      and "1 < requested_pageno"
      and "start \<noteq> page_offset requested_pageno"
      and "\<not> (start = 1 \<and> total_count < page_offset requested_pageno \<and> 0 < total_count)"
  shows "response env resp_text requested_pageno =
           Inr (results @ [Summary total_count],
                out1 @ [lit ''WARNING: '' @ page_mismatch_text requested_pageno
                               (page_offset requested_pageno) start])"
  using response_checked [OF assms(1-4)] check_page_mismatch [OF assms(5-7)] by simp

lemma result_step_cases:
  assumes "result_step li (rm, out, results) = Inr (rm1, out1, results1)"
  shows "(xpath_h2_a rm li = [] \<and> rm1 = rm \<and> out1 = out \<and> results1 = results)
       \<or> (xpath_h2_a rm li \<noteq> [] \<and> (\<exists>u t c. results1 = results @ [Item u t c]))"
  using assms
  by (auto simp: result_step_def eval_xpath_getindex_def Let_def split: if_splits sum.splits prod.splits)

lemma extract_results_items:
  assumes "extract_results lis (rm, out, results) = Inr (rm1, out1, results1)"
      and "\<forall>r \<in> set results. is_item r"
  shows "\<forall>r \<in> set results1. is_item r"
  using assms
proof (induction lis arbitrary: rm out results)
  case Nil
  then show ?case by simp
next
  case (Cons li lis)
  from Cons.prems(1) obtain rm2 out2 results2 where
    s: "result_step li (rm, out, results) = Inr (rm2, out2, results2)"
    and r: "extract_results lis (rm2, out2, results2) = Inr (rm1, out1, results1)"
    by (auto split: sum.splits)
  from result_step_cases [OF s] Cons.prems(2) have "\<forall>r \<in> set results2. is_item r"
    by (auto simp: is_item_def)
  from Cons.IH [OF r this] show ?case .
qed

lemma decimal_value_nonneg: "0 \<le> decimal_value s"
proof -
  have "0 \<le> v \<Longrightarrow> 0 \<le> foldl (\<lambda>v c. 10 * v + int (c - 48)) v s" for v
    by (induction s arbitrary: v) auto
  then show ?thesis by (simp add: decimal_value_def)
qed

lemma parse_count_nonneg:
  assumes "parse_count m s out = Inr (start, total_count, out1)"
  shows "0 \<le> total_count"
  using assms decimal_value_nonneg
  by (auto simp: parse_count_def Let_def py_int_def split: if_splits sum.splits)

lemma check_page_cases:
  assumes "check_page requested_pageno start total_count results out = Inr (rs, out1)"
  shows "(rs = [] \<and> 1 < requested_pageno \<and> start \<noteq> page_offset requested_pageno \<and> start = 1
            \<and> total_count < page_offset requested_pageno \<and> 0 < total_count)
       \<or> rs = results @ [Summary total_count]"
  using assms
  by (auto simp: check_page_def Let_def split: if_splits sum.splits)

text \<open>
  C2, as amended. Whenever \<open>response\<close> returns a list, the document was parsed and the loop
  extracted \<open>results\<close>, all of them items. With no result block the list is the items followed
  by the summary with total 0. With a result block the count text was read as \<open>start\<close> and
  \<open>total_count\<close> (zero or more): on the invalid-page return (requested page above 1, start
  index 1 and not the expected offset, expected offset above the positive total) the list is
  empty and carries no summary; on every other return it is the items followed by the
  summary that carries exactly \<open>total_count\<close>.
\<close>

theorem response_summary:
  assumes "response env resp_text requested_pageno = Inr (rs, out)"
  shows "\<exists>doc rm out0 results.
           html_fromstring env resp_text = Inr doc
         \<and> extract_results (xpath_results doc) ([], [], []) = Inr (rm, out0, results)
         \<and> (\<forall>r \<in> set results. is_item r)
         \<and> (if xpath_results doc = [] then rs = results @ [Summary 0]
              else (\<exists>start total_count out1.
                      parse_count (int_max_str_digits env) (result_count_container_str rm doc) out0
                        = Inr (start, total_count, out1)
                    \<and> 0 \<le> total_count
                    \<and> (if 1 < requested_pageno \<and> start \<noteq> page_offset requested_pageno \<and> start = 1
                           \<and> total_count < page_offset requested_pageno \<and> 0 < total_count
                        then rs = []
                        else rs = results @ [Summary total_count])))"
proof -
  obtain doc where doc: "html_fromstring env resp_text = Inr doc"
    using assms by (cases "html_fromstring env resp_text") (simp_all add: response_def)
  obtain st where st: "extract_results (xpath_results doc) ([], [], []) = Inr st"
    using assms doc
    by (cases "extract_results (xpath_results doc) ([], [], [])") (simp_all add: response_def Let_def)
  obtain rm out0 results where st3: "st = (rm, out0, results)"
    by (cases st) auto
  have ex: "extract_results (xpath_results doc) ([], [], []) = Inr (rm, out0, results)"
    using st st3 by simp
  have items: "\<forall>r \<in> set results. is_item r"
    using extract_results_items [OF ex] by simp
  have tail: "if xpath_results doc = [] then rs = results @ [Summary 0]
              else (\<exists>start total_count out1.
                      parse_count (int_max_str_digits env) (result_count_container_str rm doc) out0
                        = Inr (start, total_count, out1)
                    \<and> 0 \<le> total_count
                    \<and> (if 1 < requested_pageno \<and> start \<noteq> page_offset requested_pageno \<and> start = 1
                           \<and> total_count < page_offset requested_pageno \<and> 0 < total_count
                        then rs = []
                        else rs = results @ [Summary total_count]))"
  proof (cases "xpath_results doc = []")
    case True
    with assms doc ex have "rs = results @ [Summary 0]"
      by (simp add: response_def Let_def)
    with True show ?thesis by simp
  next
    case False
    obtain pr where pr: "parse_count (int_max_str_digits env) (result_count_container_str rm doc) out0
             = Inr pr"
      using assms doc ex False
      by (cases "parse_count (int_max_str_digits env) (result_count_container_str rm doc) out0")
         (simp_all add: response_def Let_def)
    obtain start total_count out1 where "pr = (start, total_count, out1)"
      by (cases pr) auto
    with pr have pc: "parse_count (int_max_str_digits env) (result_count_container_str rm doc) out0
             = Inr (start, total_count, out1)" by simp
    from response_checked [OF doc ex False pc, of requested_pageno] assms
    have cp: "check_page requested_pageno start total_count results out1 = Inr (rs, out)" by simp
    have "if 1 < requested_pageno \<and> start \<noteq> page_offset requested_pageno \<and> start = 1
                           \<and> total_count < page_offset requested_pageno \<and> 0 < total_count
                        then rs = []
                        else rs = results @ [Summary total_count]"
      using cp by (auto simp: check_page_def Let_def split: if_splits sum.splits)
    with pc parse_count_nonneg [OF pc] False show ?thesis
      by (simp only: if_False) blast
  qed
  show ?thesis
    by (intro exI [of _ doc] exI [of _ rm] exI [of _ out0] exI [of _ results] conjI doc ex items tail)
qed

text \<open>
  C10. In the loop body, a result block whose first heading anchor has no \<open>href\<close>
  attribute still appends an item, with \<open>url\<close> \<open>None\<close>, the title and the snippet, nothing
  is printed and nothing is raised; and the body leaves \<open>results\<close> as it was exactly when
  the block has no heading anchor.
\<close>

theorem result_step_missing_href:
  "(\<forall>link_element others.
       xpath_h2_a rm li = link_element # others \<longrightarrow>
       map_of (elem_attrib (snd link_element)) (lit ''href'') = None \<longrightarrow>
       result_step li (rm, out, results) =
         Inr (remove_icons rm (xpath_p rm li), out,
              results @ [Item None (extract_text rm [link_element])
                           (extract_text (remove_icons rm (xpath_p rm li)) (xpath_p rm li))]))
   \<and> ((\<exists>rm1 out1. result_step li (rm, out, results) = Inr (rm1, out1, results))
        \<longleftrightarrow> xpath_h2_a rm li = [])"
proof (intro conjI allI impI)
  fix link_element others
  assume "xpath_h2_a rm li = link_element # others"
    and "map_of (elem_attrib (snd link_element)) (lit ''href'') = None"
  then show "result_step li (rm, out, results) =
         Inr (remove_icons rm (xpath_p rm li), out,
              results @ [Item None (extract_text rm [link_element])
                           (extract_text (remove_icons rm (xpath_p rm li)) (xpath_p rm li))])"
    by (simp add: result_step_def eval_xpath_getindex_def Let_def decode_redirect_def)
next
  show "(\<exists>rm1 out1. result_step li (rm, out, results) = Inr (rm1, out1, results))
        \<longleftrightarrow> xpath_h2_a rm li = []"
  proof
    assume "\<exists>rm1 out1. result_step li (rm, out, results) = Inr (rm1, out1, results)"
    then obtain rm1 out1 where "result_step li (rm, out, results) = Inr (rm1, out1, results)"
      by blast
    from result_step_cases [OF this] show "xpath_h2_a rm li = []" by auto
  next
    assume "xpath_h2_a rm li = []"
    then have "result_step li (rm, out, results) = Inr (rm, out, results)"
      by (simp add: result_step_def eval_xpath_getindex_def)
    then show "\<exists>rm1 out1. result_step li (rm, out, results) = Inr (rm1, out1, results)"
      by blast
  qed
qed

section \<open>The response parser on concrete pages\<close>

lemma is_decimal_ascii: "c < 1632 \<Longrightarrow> is_decimal c = (48 \<le> c \<and> c \<le> 57)"
  by (auto simp: is_decimal_def decimal_ranges_def)

lemmas text_eval = lit_def startswith_def strip_def is_space_def digits_only_def decimal_value_def
  py_int_def is_decimal_ascii str_int_def digits_small digits_step

lemmas doc_eval = page_15_def results_page_def block_badge_def block_no_href_def block_tracking_def
  parsed_as_def xpath_results_def
  xpath_h2_a_def xpath_p_def xpath_icons_def is_results_list_def is_result_item_def has_class_def
  is_count_span_def result_count_container_str_def extract_text_def eval_xpath_getindex_def
  result_step_def decode_redirect_def tracking_prefix_def

lemma page_15_parsed: "html_fromstring (parsed_as page_15) [] = Inr page_15"
  by (simp add: parsed_as_def)

lemma page_15_blocks: "xpath_results page_15 = [([0, 1, 0], block_badge)]"
  by (simp add: doc_eval text_eval)

lemma page_15_found: "xpath_results page_15 \<noteq> []"
  by (simp add: page_15_blocks)

lemma page_15_extracted:
  "extract_results (xpath_results page_15) ([], [], []) =
     Inr ([[0, 1, 0, 1, 0]], [],
          [Item (Some (lit ''https://example.com/'')) (lit ''Example Domain'') []])"
  unfolding page_15_blocks by (simp add: doc_eval text_eval Let_def)

lemma page_15_count:
  "parse_count (int_max_str_digits (parsed_as page_15))
     (result_count_container_str [[0, 1, 0, 1, 0]] page_15) [] = Inr (1, 15, [])"
proof -
  have "result_count_container_str [[0, 1, 0, 1, 0]] page_15 = lit ''1-10 of 15 results''"
    by (simp add: doc_eval text_eval)
  then show ?thesis
    by (simp add: parse_count_def Let_def text_eval parsed_as_def)
qed

lemma page_15_response:
  "response (parsed_as page_15) [] requested_pageno =
     check_page requested_pageno 1 15
       [Item (Some (lit ''https://example.com/'')) (lit ''Example Domain'') []] []"
  by (rule response_checked [OF page_15_parsed page_15_extracted page_15_found page_15_count])

lemma offsets: "page_offset 1 = 1" "page_offset 2 = 11" "page_offset 3 = 21"
  by (simp_all add: page_offset_def)

text \<open>
  C2, as stated, fails on the page \<open>page_15\<close> (one result block, count text
  \<open>1-10 of 15 results\<close>) requested as page 3: the expected offset 21 exceeds the total 15,
  the start index is 1, and \<open>response\<close> returns the empty list, which ends with no summary.
\<close>

theorem response_beyond_returns_empty:
  "response (parsed_as page_15) [] 3 =
     Inr ([], [lit ''WARNING: Bing returned page 1 instead of requested page 3. Expected start offset: 21, but page shows start at 1. This might be because the requested page is beyond the total available results (15).''])"
proof -
  have "check_page 3 1 15 [Item (Some (lit ''https://example.com/'')) (lit ''Example Domain'') []] []
          = Inr ([], [] @ [lit ''WARNING: '' @ page_beyond_results_text 3 (page_offset 3) 1 15])"
    by (rule check_page_beyond) (simp_all add: offsets)
  moreover have "lit ''WARNING: '' @ page_beyond_results_text 3 (page_offset 3) 1 15 =
     lit ''WARNING: Bing returned page 1 instead of requested page 3. Expected start offset: 21, but page shows start at 1. This might be because the requested page is beyond the total available results (15).''"
    by (simp add: page_beyond_results_text_def offsets text_eval)
  ultimately show ?thesis by (simp add: page_15_response)
qed

text \<open>
  C8. The paragraph of the result block of \<open>page_15\<close> is
  \<open><span class="algoSlug_icon">Web</span>Some real text\<close>. The text after the span is the
  tail of the span, \<open>remove\<close> takes it out with the span, and the \<open>content\<close> of the item
  is empty.
\<close>

theorem response_badge_tail_lost:
  "response (parsed_as page_15) [] 1 =
     Inr ([Item (Some (lit ''https://example.com/'')) (lit ''Example Domain'') [], Summary 15], [])"
  by (simp add: page_15_response check_page_expected offsets)

lemma page_15_second_page:
  "response (parsed_as page_15) [] 2 =
     Inr ([Item (Some (lit ''https://example.com/'')) (lit ''Example Domain'') [], Summary 15],
          [lit ''WARNING: '' @ page_mismatch_text 2 11 1])"
proof -
  have "check_page 2 1 15 [Item (Some (lit ''https://example.com/'')) (lit ''Example Domain'') []] []
          = Inr ([Item (Some (lit ''https://example.com/'')) (lit ''Example Domain'') []] @ [Summary 15],
                 [] @ [lit ''WARNING: '' @ page_mismatch_text 2 (page_offset 2) 1])"
    by (rule check_page_mismatch) (simp_all add: offsets)
  then show ?thesis by (simp add: page_15_response offsets)
qed

lemma response_page_beyond_results_example:
  "html_fromstring (parsed_as page_15) [] = Inr page_15
   \<and> extract_results (xpath_results page_15) ([], [], []) =
       Inr ([[0, 1, 0, 1, 0]], [],
            [Item (Some (lit ''https://example.com/'')) (lit ''Example Domain'') []])
   \<and> xpath_results page_15 \<noteq> []
   \<and> parse_count (int_max_str_digits (parsed_as page_15))
         (result_count_container_str [[0, 1, 0, 1, 0]] page_15) [] = Inr (1, 15, [])
   \<and> (1::int) < 3 \<and> (1::int) \<noteq> page_offset 3 \<and> 15 < page_offset 3 \<and> (0::int) < 15
   \<and> response (parsed_as page_15) [] 3 =
       Inr ([], [lit ''WARNING: '' @ page_beyond_results_text 3 (page_offset 3) 1 15])"
proof -
  have c: "(1::int) < 3" "(1::int) \<noteq> page_offset 3" "(1::int) = 1" "15 < page_offset 3" "(0::int) < 15"
    by (simp_all add: offsets)
  show ?thesis
    using response_page_beyond_results
            [OF page_15_parsed page_15_extracted page_15_found page_15_count c]
          page_15_parsed page_15_extracted page_15_found page_15_count c
    by simp
qed

lemma response_page_mismatch_example:
  "html_fromstring (parsed_as page_15) [] = Inr page_15
   \<and> extract_results (xpath_results page_15) ([], [], []) =
       Inr ([[0, 1, 0, 1, 0]], [],
            [Item (Some (lit ''https://example.com/'')) (lit ''Example Domain'') []])
   \<and> xpath_results page_15 \<noteq> []
   \<and> parse_count (int_max_str_digits (parsed_as page_15))
         (result_count_container_str [[0, 1, 0, 1, 0]] page_15) [] = Inr (1, 15, [])
   \<and> (1::int) < 2 \<and> (1::int) \<noteq> page_offset 2
   \<and> \<not> ((1::int) = 1 \<and> 15 < page_offset 2 \<and> (0::int) < 15)
   \<and> response (parsed_as page_15) [] 2 =
       Inr ([Item (Some (lit ''https://example.com/'')) (lit ''Example Domain'') [], Summary 15],
            [lit ''WARNING: '' @ page_mismatch_text 2 (page_offset 2) 1])"
proof -
  have c: "(1::int) < 2" "(1::int) \<noteq> page_offset 2"
    "\<not> ((1::int) = 1 \<and> 15 < page_offset 2 \<and> (0::int) < 15)"
    by (simp_all add: offsets)
  show ?thesis
    using response_page_mismatch
            [OF page_15_parsed page_15_extracted page_15_found page_15_count c]
          page_15_parsed page_15_extracted page_15_found page_15_count c
    by simp
qed

theorem response_summary_witness:
  "response (parsed_as page_15) [] 2 =
     Inr ([Item (Some (lit ''https://example.com/'')) (lit ''Example Domain'') [], Summary 15],
          [lit ''WARNING: '' @ page_mismatch_text 2 11 1])
   \<and> (\<exists>doc rm out0 results.
           html_fromstring (parsed_as page_15) [] = Inr doc
         \<and> extract_results (xpath_results doc) ([], [], []) = Inr (rm, out0, results)
         \<and> (\<forall>r \<in> set results. is_item r)
         \<and> (if xpath_results doc = []
              then [Item (Some (lit ''https://example.com/'')) (lit ''Example Domain'') [], Summary 15]
                     = results @ [Summary 0]
              else (\<exists>start total_count out1.
                      parse_count (int_max_str_digits (parsed_as page_15))
                        (result_count_container_str rm doc) out0
                        = Inr (start, total_count, out1)
                    \<and> 0 \<le> total_count
                    \<and> (if 1 < (2::int) \<and> start \<noteq> page_offset 2 \<and> start = 1
                           \<and> total_count < page_offset 2 \<and> 0 < total_count
                        then [Item (Some (lit ''https://example.com/'')) (lit ''Example Domain'') [],
                              Summary 15] = []
                        else [Item (Some (lit ''https://example.com/'')) (lit ''Example Domain'') [],
                              Summary 15] = results @ [Summary total_count]))))"
  using response_summary [OF page_15_second_page] page_15_second_page by simp

text \<open>
  A result block whose link is a tracking URL with \<open>%20\<close> in it and no \<open>u\<close> parameter:
  the warning of the decoder raises inside the loop, and \<open>response\<close> raises, for every
  requested page.
\<close>

lemma tracking_warning_raises:
  "decode_redirect (Some (lit ''https://www.bing.com/ck/a?!&&p=%20&ntb=1'')) [] = Inl FormatError"
  by code_simp

lemma tracking_page_blocks: "xpath_results tracking_page = [([0, 1, 0], block_tracking)]"
  by (simp add: tracking_page_def doc_eval text_eval)

lemma tracking_page_raises: "response (parsed_as tracking_page) [] requested_pageno = Inl FormatError"
proof -
  have a: "xpath_h2_a [] ([0, 1, 0], block_tracking) =
             [([0, 1, 0, 0, 0],
               Elem (lit ''a'') [(lit ''href'', lit ''https://www.bing.com/ck/a?!&&p=%20&ntb=1'')]
                 (lit ''Tracked'') [] [])]"
    by (simp add: xpath_h2_a_def block_tracking_def lit_def)
  have "result_step ([0, 1, 0], block_tracking) ([], [], []) = Inl FormatError"
    by (simp add: result_step_def eval_xpath_getindex_def a Let_def tracking_warning_raises
          del: One_nat_def)
  then show ?thesis
    by (simp add: response_def parsed_as_def tracking_page_blocks del: One_nat_def)
qed

lemma tracking_page_count:
  "parse_count 4300 (result_count_container_str [] tracking_page) [] = Inr (1, 15, [])"
proof -
  have "result_count_container_str [] tracking_page = lit ''1-10 of 15 results''"
    by (simp add: tracking_page_def doc_eval text_eval)
  then show ?thesis
    by (simp add: parse_count_def Let_def text_eval)
qed

text \<open>
  C3. The page \<open>tracking_page\<close> has one result block and the count text
  \<open>1-10 of 15 results\<close>; requested as page 3 it meets every condition of the invalid-page
  rule (start index 1, expected offset 21 above the total 15). Its link is a tracking URL
  with \<open>%20\<close> in it and no \<open>u\<close> parameter: the warning of the decoder raises inside
  the loop, and \<open>response\<close> raises instead of returning the empty list.
\<close>

theorem response_beyond_page_raises:
  "xpath_results tracking_page \<noteq> []
   \<and> parse_count 4300 (result_count_container_str [] tracking_page) [] = Inr (1, 15, [])
   \<and> (1::int) < 3 \<and> (1::int) \<noteq> page_offset 3 \<and> 15 < page_offset 3 \<and> (0::int) < 15
   \<and> response (parsed_as tracking_page) [] 3 = Inl FormatError"
  by (simp add: tracking_page_blocks tracking_page_count tracking_page_raises offsets)

text \<open>
  C4. The same page requested as page 2: the start index 1 differs from the expected offset
  11, and 11 does not exceed the total 15, so the mismatch is not the invalid-page one;
  \<open>response\<close> raises, where the items were to be returned with a warning.
\<close>

theorem response_mismatch_page_raises:
  "xpath_results tracking_page \<noteq> []
   \<and> parse_count 4300 (result_count_container_str [] tracking_page) [] = Inr (1, 15, [])
   \<and> (1::int) < 2 \<and> (1::int) \<noteq> page_offset 2 \<and> \<not> (15 < page_offset 2)
   \<and> response (parsed_as tracking_page) [] 2 = Inl FormatError"
  by (simp add: tracking_page_blocks tracking_page_count tracking_page_raises offsets)

text \<open>
  The \<open>int\<close> of line 339 is outside any \<open>try\<close>: a start index with more digits than the
  limit raises out of \<open>response\<close>.
\<close>

lemma parse_count_start_raises:
  assumes "contains s (lit ''-'')"
      and "0 < m"
      and "m < length (digits_only (case split_dash_digits s of None \<Rightarrow> s | Some (before, after) \<Rightarrow> before))"
  shows "parse_count m s out = Inl ValueError"
proof -
  have "digits_only (case split_dash_digits s of None \<Rightarrow> s | Some (before, after) \<Rightarrow> before) \<noteq> []"
    using assms(3) by auto
  then show ?thesis
    using assms by (simp add: parse_count_def Let_def py_int_def)
qed

lemma no_href_anchor:
  "xpath_h2_a [] ([0, 1, 0], block_no_href) =
     [([0, 1, 0, 0, 0], Elem (lit ''a'') [] (lit ''No link'') [] [])]"
  by (simp add: doc_eval text_eval)

theorem result_step_missing_href_witness:
  "xpath_h2_a [] ([0, 1, 0], block_no_href) =
     [([0, 1, 0, 0, 0], Elem (lit ''a'') [] (lit ''No link'') [] [])]
   \<and> map_of (elem_attrib (snd ([0, 1, 0, 0, 0], Elem (lit ''a'') [] (lit ''No link'') [] [])))
         (lit ''href'') = None
   \<and> result_step ([0, 1, 0], block_no_href) ([], [], []) =
       Inr ([], [], [Item None (lit ''No link'') (lit ''Plain snippet'')])
   \<and> xpath_h2_a [] ([0, 1, 0], Elem (lit ''li'') [(lit ''class'', lit ''b_algo'')] [] [] []) = []
   \<and> (\<exists>rm1 out1. result_step ([0, 1, 0], Elem (lit ''li'') [(lit ''class'', lit ''b_algo'')] [] [] [])
                      ([], [], []) = Inr (rm1, out1, []))"
proof -
  have e: "xpath_h2_a [] ([0, 1, 0], Elem (lit ''li'') [(lit ''class'', lit ''b_algo'')] [] [] []) = []"
    by (simp add: doc_eval)
  have t: "extract_text [] [([0, 1, 0, 0, 0], Elem (lit ''a'') [] (lit ''No link'') [] [])] = lit ''No link''"
    by (simp add: doc_eval text_eval)
  have p: "xpath_p [] ([0, 1, 0], block_no_href) = [([0, 1, 0, 1], Elem (lit ''p'') [] (lit ''Plain snippet'') [] [])]"
    by (simp add: doc_eval text_eval)
  have r: "xpath_icons [] ([0, 1, 0, 1], Elem (lit ''p'') [] (lit ''Plain snippet'') [] []) = []"
    by (simp add: doc_eval text_eval)
  have c: "extract_text [] [([0, 1, 0, 1], Elem (lit ''p'') [] (lit ''Plain snippet'') [] [])] = lit ''Plain snippet''"
    by (simp add: doc_eval text_eval)
  show ?thesis
    using result_step_missing_href [of "[]" "([0, 1, 0], block_no_href)" "[]" "[]"]
      result_step_missing_href
        [of "[]" "([0, 1, 0], Elem (lit ''li'') [(lit ''class'', lit ''b_algo'')] [] [] [])" "[]" "[]"]
      no_href_anchor e
    by (simp add: t p r c del: One_nat_def)
qed

end
